theory Spec2Isabelle
  imports Complex_Main
begin

section \<open>Data model\<close>

text \<open>
  The server keeps its data in document collections (User, Report, Reward, Redemption) and,
  for the in-memory rewards router, in two module-level arrays. A request handler is modelled
  as a function from the store (and the request) to the new store and the response.

  Conventions of the embedding:
  \<^item> JavaScript numbers that hold counts and points are \<open>int\<close>; coordinates are \<open>real\<close>
    (rounding of IEEE doubles is not modelled); dates are milliseconds since the epoch.
  \<^item> A document identifier of the User and Reward collections is a \<open>nat\<close> key of a map. Reports
    are never deleted by the modelled routes, so the Report collection is a list and the
    identifier of a report is its position.
  \<^item> A handler is modelled from the point where the authentication and role middleware has
    admitted the request: \<open>actor\<close> is \<open>req.user._id\<close>.
  \<^item> Each request carries the clock readings and the random strings its handler draws. The
    readings that only stamp a document are taken as one, the time \<open>now\<close> of the request; a
    reading that decides a branch after something was saved is a reading of its own.
  \<^item> Identifiers and enumerated fields of a request are well-formed values of their types.
    The \<open>points\<close> field of an award request is taken as the body parser delivers it (a
    number, a text, another value or nothing); the handler uses it unconverted.
  \<^item> A save runs the validators of the schema first and the \<open>pre('save')\<close> hooks after
    them. Two rejections are modelled: the \<open>required\<close> validator of \<open>reportId\<close> on a new
    report, which a submission does not pass, and the cast of a balance that a text was
    joined to. Stored documents are valid for their schema and the handlers assign valid
    values otherwise, so every other save of a loaded document passes validation.
  \<^item> Rejections by the storage layer (a unique index, an outage) are not modelled.
\<close>

type_synonym user_id = nat
type_synonym report_id = nat
type_synonym reward_id = nat
type_synonym time = int

datatype role = Citizen | Admin | Collector

record user =
  name :: string
  role :: role
  points :: int
  totalReports :: int
  completedReports :: int
  assignedReports :: "report_id list"
  completedTasks :: int

datatype status = Submitted | Verified | Assigned | In_progress | Completed | Rejected

datatype priority = Low | Medium | High | Urgent

record history_entry =
  h_status :: status
  changedBy :: user_id
  changedAt :: time
  h_notes :: string

record cleanup_image =
  url :: string
  uploadedBy :: user_id
  uploadedAt :: time

record report =
  reportId :: "string option"
  citizen :: user_id
  title :: string
  description :: string
  address :: string
  lat :: real
  lng :: real
  original :: string
  beforeCleanup :: "cleanup_image option"
  afterCleanup :: "cleanup_image option"
  status :: status
  assignedTo :: "user_id option"
  assignedAt :: "time option"
  verifiedBy :: "user_id option"
  verifiedAt :: "time option"
  verificationNotes :: "string option"
  completedAt :: "time option"
  completionNotes :: "string option"
  pointsAwarded :: int
  pointsAwardedAt :: "time option"
  priority :: priority
  actualCleanupTime :: "int option"
  statusHistory :: "history_entry list"
  updatedAt :: "time option"

record reward =
  partnerName :: "string option"
  pointsCost :: int
  isActive :: bool
  totalQuantity :: int
  remainingQuantity :: int
  validFrom :: time
  validUntil :: time
  totalRedeemed :: int

datatype redemption_status = Active | Used | Expired | Cancelled

record redemption =
  rd_user :: user_id
  rd_reward :: reward_id
  pointsUsed :: int
  generatedCode :: string
  rd_status :: redemption_status
  expiresAt :: time
  redeemedAt :: time

text \<open>The objects of the in-memory rewards router (\<open>let rewards = [...]\<close>,
  \<open>let redemptions = []\<close>).\<close>

record mem_reward =
  m_id :: string
  m_pointsRequired :: int
  m_isActive :: bool
  m_availableQuantity :: int
  m_validUntil :: time

record mem_redemption =
  md_id :: string
  md_userId :: user_id
  md_rewardId :: string
  md_couponCode :: string
  md_pointsUsed :: int
  md_isUsed :: bool
  md_usedAt :: "time option"
  md_expiresAt :: time
  md_createdAt :: time

record store =
  users :: "user_id \<rightharpoonup> user"
  reports :: "report list"
  rewards :: "reward_id \<rightharpoonup> reward"
  redemptions :: "redemption list"
  mem_rewards :: "mem_reward list"
  mem_redemptions :: "mem_redemption list"

datatype error =
    VALIDATION_FAILED | NO_IMAGE | SUBMISSION_ERROR | REPORT_NOT_FOUND | INVALID_STATUS
  | INVALID_COLLECTOR
  | ACCESS_DENIED | NO_AFTER_IMAGE | POINTS_ALREADY_AWARDED
  | START_ERROR | COMPLETE_ERROR | AWARD_POINTS_ERROR
  | USER_NOT_FOUND | REWARD_NOT_FOUND | REWARD_NOT_AVAILABLE | INSUFFICIENT_POINTS | REDEEM_ERROR

text \<open>The answers of the in-memory rewards router carry a message only.\<close>

datatype mem_error =
    Reward_not_found | Reward_is_not_active | Reward_is_out_of_stock | Reward_has_expired
  | User_not_found | Insufficient_points

text \<open>The exceptions thrown by the model methods, and the two rejections of a save that
  are modelled: a required path that is absent, and a value that cannot be cast to the
  number its path holds.\<close>

datatype exn =
    Only_citizens_can_earn_points
  | Insufficient_points_or_invalid_user_role
  | Reward_is_not_available_for_redemption
  | Path_reportId_is_required
  | Cast_to_Number_failed

section \<open>Texts and numbers\<close>

text \<open>\<open>String(n)\<close>: the decimal digits of a natural number, and of an integer with its
  sign.\<close>

definition digit :: "nat \<Rightarrow> char" where
  "digit d = ''0123456789'' ! d"

fun String_nat :: "nat \<Rightarrow> string" where
  "String_nat n = (if n < 10 then [digit n] else String_nat (n div 10) @ [digit (n mod 10)])"

declare String_nat.simps [simp del]

definition String_int :: "int \<Rightarrow> string" where
  "String_int n = (if n < 0 then CHR ''-'' # String_nat (nat (- n)) else String_nat (nat n))"

text \<open>The value a string of decimal digits denotes.\<close>

definition digit_value :: "char \<Rightarrow> nat" where
  "digit_value c = (of_char c :: nat) - 48"

definition decimal_value :: "string \<Rightarrow> nat" where
  "decimal_value str = foldl (\<lambda>acc c. 10 * acc + digit_value c) 0 str"

text \<open>A text that writes an integer: an optional sign and one or more digits, the pattern
  \<open>^[-+]?[0-9]+$\<close> of the validator; and the integer it denotes.\<close>

definition is_digit :: "char \<Rightarrow> bool" where
  "is_digit c = (c \<in> set ''0123456789'')"

definition strip_sign :: "string \<Rightarrow> string" where
  "strip_sign t =
     (case t of [] \<Rightarrow> [] | c # cs \<Rightarrow> if c = CHR ''+'' \<or> c = CHR ''-'' then cs else t)"

definition int_text :: "string \<Rightarrow> bool" where
  "int_text t = (strip_sign t \<noteq> [] \<and> list_all is_digit (strip_sign t))"

definition text_value :: "string \<Rightarrow> int" where
  "text_value t =
     (case t of
        [] \<Rightarrow> 0
      | c # cs \<Rightarrow> if c = CHR ''-'' then - int (decimal_value cs)
                  else int (decimal_value (strip_sign t)))"

text \<open>The cast of a text assigned to a numeric path, \<open>Number(t)\<close>: the integer the text
  writes, and no number for a text such as \<open>10+50\<close>. Only texts made of a balance followed by
  a validated text are cast here, so other notations of numbers (fractions, exponents,
  blanks) do not occur.\<close>

definition Number_text :: "string \<Rightarrow> int option" where
  "Number_text t = (if int_text t then Some (text_value t) else None)"

section \<open>User model: the points methods\<close>

text \<open>\<open>userSchema.methods.addPoints\<close>: only the role is checked, the amount is not.\<close>

definition addPoints :: "user \<Rightarrow> int \<Rightarrow> exn + user" where
  "addPoints u p =
     (if role u = Citizen then Inr (u\<lparr>points := points u + p\<rparr>)
      else Inl Only_citizens_can_earn_points)"

text \<open>\<open>addPoints\<close> called with a text: \<open>this.points += points\<close> joins the digits of the
  balance and the text, and the assignment casts the result back to a number. When that
  fails, \<open>this.save()\<close> rejects.\<close>

definition addPoints_text :: "user \<Rightarrow> string \<Rightarrow> exn + user" where
  "addPoints_text u t =
     (if role u = Citizen
      then (case Number_text (String_int (points u) @ t) of
              None \<Rightarrow> Inl Cast_to_Number_failed
            | Some v \<Rightarrow> Inr (u\<lparr>points := v\<rparr>))
      else Inl Only_citizens_can_earn_points)"

text \<open>\<open>userSchema.methods.deductPoints\<close>.\<close>

definition deductPoints :: "user \<Rightarrow> int \<Rightarrow> exn + user" where
  "deductPoints u p =
     (if role u = Citizen \<and> points u \<ge> p then Inr (u\<lparr>points := points u - p\<rparr>)
      else Inl Insufficient_points_or_invalid_user_role)"

text \<open>\<open>User.findByIdAndUpdate(id, update)\<close>: nothing happens when the document is absent.\<close>

definition findByIdAndUpdate :: "store \<Rightarrow> user_id \<Rightarrow> (user \<Rightarrow> user) \<Rightarrow> store" where
  "findByIdAndUpdate s uid f =
     (case users s uid of None \<Rightarrow> s | Some u \<Rightarrow> s\<lparr>users := (users s)(uid \<mapsto> f u)\<rparr>)"

section \<open>Report model\<close>

definition padStart :: "nat \<Rightarrow> char \<Rightarrow> string \<Rightarrow> string" where
  "padStart n c str = replicate (n - length str) c @ str"

text \<open>The \<open>pre('save')\<close> hook of the report schema. \<open>count\<close> is what
  \<open>countDocuments()\<close> returns; \<open>!this.reportId\<close> holds for an absent and for an empty
  identifier.\<close>

definition preSave :: "nat \<Rightarrow> time \<Rightarrow> bool \<Rightarrow> report \<Rightarrow> report" where
  "preSave count now isNew r =
     (let r1 = (if isNew \<and> (reportId r = None \<or> reportId r = Some [])
                then r\<lparr>reportId := Some (''WR'' @ padStart 6 (CHR ''0'') (String_nat (count + 1)))\<rparr>
                else r)
      in r1\<lparr>updatedAt := Some now\<rparr>)"

text \<open>\<open>save()\<close> of a new document: validation comes first, and \<open>reportId\<close> is declared
  \<open>required\<close>, which an absent and an empty text fail. Only a document that passes reaches
  the hook and is inserted.\<close>

definition save_new :: "store \<Rightarrow> time \<Rightarrow> report \<Rightarrow> exn + store" where
  "save_new s now r =
     (if reportId r = None \<or> reportId r = Some [] then Inl Path_reportId_is_required
      else Inr (s\<lparr>reports := reports s @ [preSave (length (reports s)) now True r]\<rparr>))"

text \<open>\<open>save()\<close> of a document loaded from the collection (position \<open>i\<close>); it returns the
  document as saved.\<close>

definition save_report :: "store \<Rightarrow> time \<Rightarrow> report_id \<Rightarrow> report \<Rightarrow> store \<times> report" where
  "save_report s now i r =
     (let r' = preSave (length (reports s)) now False r
      in (s\<lparr>reports := (reports s)[i := r']\<rparr>, r'))"

definition findById :: "store \<Rightarrow> report_id \<Rightarrow> report option" where
  "findById s i = (if i < length (reports s) then Some (reports s ! i) else None)"

text \<open>\<open>reportSchema.methods.changeStatus\<close>, on the document \<open>r\<close> a handler holds: the
  status is set, an entry is pushed on the history, the timestamps of the new status are set
  and the document is saved. The saved document is returned with the store.\<close>

definition changeStatus ::
  "store \<Rightarrow> time \<Rightarrow> report_id \<Rightarrow> report \<Rightarrow> status \<Rightarrow> user_id \<Rightarrow> string \<Rightarrow> store \<times> report" where
  "changeStatus s now i r newStatus who nts =
     (let r1 = r\<lparr>status := newStatus,
                 statusHistory := statusHistory r @
                   [\<lparr>h_status = newStatus, changedBy = who, changedAt = now, h_notes = nts\<rparr>]\<rparr>;
          r2 = (case newStatus of
                  Verified \<Rightarrow> r1\<lparr>verifiedBy := Some who, verifiedAt := Some now\<rparr>
                | Assigned \<Rightarrow> r1\<lparr>assignedAt := Some now\<rparr>
                | Completed \<Rightarrow> r1\<lparr>completedAt := Some now\<rparr>
                | _ \<Rightarrow> r1)
      in save_report s now i r2)"

section \<open>Report routes\<close>

text \<open>Request bodies are modelled after the sanitizers of the validation chain have run
  (\<open>trim\<close>). \<open>x || d\<close> on an optional string takes \<open>d\<close> for an absent and for an empty
  \<open>x\<close>.\<close>

definition or_default :: "string option \<Rightarrow> string \<Rightarrow> string" where
  "or_default x d = (case x of None \<Rightarrow> d | Some v \<Rightarrow> if v = [] then d else v)"

record submit_body =
  b_title :: string
  b_description :: string
  b_address :: string
  b_lat :: real
  b_lng :: real
  b_priority :: "priority option"

text \<open>\<open>reportValidation\<close>: the length and range rules of the submission.\<close>

definition reportValidation :: "submit_body \<Rightarrow> bool" where
  "reportValidation b =
     (5 \<le> length (b_title b) \<and> length (b_title b) \<le> 100 \<and>
      10 \<le> length (b_description b) \<and> length (b_description b) \<le> 500 \<and>
      b_address b \<noteq> [] \<and>
      -90 \<le> b_lat b \<and> b_lat b \<le> 90 \<and>
      -180 \<le> b_lng b \<and> b_lng b \<le> 180)"

text \<open>\<open>new Report({...})\<close> of the submission handler, with the defaults of the schema:
  status \<open>submitted\<close>, no points, an empty status history.\<close>

definition new_Report :: "user_id \<Rightarrow> submit_body \<Rightarrow> string \<Rightarrow> report" where
  "new_Report actor b file =
     \<lparr>reportId = None, citizen = actor, title = b_title b, description = b_description b,
      address = b_address b, lat = b_lat b, lng = b_lng b, original = file,
      beforeCleanup = None, afterCleanup = None, status = Submitted,
      assignedTo = None, assignedAt = None, verifiedBy = None, verifiedAt = None,
      verificationNotes = None, completedAt = None, completionNotes = None,
      pointsAwarded = 0, pointsAwardedAt = None,
      priority = (case b_priority b of None \<Rightarrow> Medium | Some p \<Rightarrow> p),
      actualCleanupTime = None, statusHistory = [], updatedAt = None\<rparr>"

text \<open>\<open>POST /api/reports\<close>. The handler builds the report without a \<open>reportId\<close>; a
  rejected \<open>save()\<close> ends in its \<open>catch\<close> with \<open>SUBMISSION_ERROR\<close>. The response of a
  stored submission carries the position of the new report.\<close>

definition submit ::
  "store \<Rightarrow> user_id \<Rightarrow> submit_body \<Rightarrow> string option \<Rightarrow> time \<Rightarrow> store \<times> (error + report_id)" where
  "submit s actor b file now =
     (if \<not> reportValidation b then (s, Inl VALIDATION_FAILED)
      else case file of
        None \<Rightarrow> (s, Inl NO_IMAGE)
      | Some f \<Rightarrow>
          (case save_new s now (new_Report actor b f) of
             Inl e \<Rightarrow> (s, Inl SUBMISSION_ERROR)
           | Inr s1 \<Rightarrow>
               let s2 = findByIdAndUpdate s1 actor
                          (\<lambda>u. u\<lparr>totalReports := totalReports u + 1\<rparr>)
               in (s2, Inr (length (reports s)))))"

datatype action = Approve | Reject

text \<open>\<open>PUT /api/reports/:id/verify\<close>. \<open>act = None\<close> is a body whose action is neither
  \<open>approve\<close> nor \<open>reject\<close>.\<close>

definition verify ::
  "store \<Rightarrow> user_id \<Rightarrow> report_id \<Rightarrow> action option \<Rightarrow> string option \<Rightarrow> time \<Rightarrow> store \<times> (error + unit)" where
  "verify s actor i act nts now =
     (case act of
        None \<Rightarrow> (s, Inl VALIDATION_FAILED)
      | Some a \<Rightarrow>
         (case findById s i of
            None \<Rightarrow> (s, Inl REPORT_NOT_FOUND)
          | Some report \<Rightarrow>
              if status report \<noteq> Submitted then (s, Inl INVALID_STATUS)
              else
                let newStatus = (if a = Approve then Verified else Rejected);
                    (s1, r1) = changeStatus s now i report newStatus actor
                                 (case nts of None \<Rightarrow> [] | Some n \<Rightarrow> n)
                in if a = Reject
                   then (fst (save_report s1 now i (r1\<lparr>verificationNotes := nts\<rparr>)), Inr ())
                   else (s1, Inr ())))"

text \<open>\<open>$addToSet\<close> and \<open>$pull\<close> on the list of assigned reports.\<close>

definition addToSet :: "'a \<Rightarrow> 'a list \<Rightarrow> 'a list" where
  "addToSet x xs = (if x \<in> set xs then xs else xs @ [x])"

definition pull :: "'a \<Rightarrow> 'a list \<Rightarrow> 'a list" where
  "pull x xs = filter (\<lambda>y. y \<noteq> x) xs"

text \<open>\<open>PUT /api/reports/:id/assign\<close>.\<close>

definition assign ::
  "store \<Rightarrow> user_id \<Rightarrow> report_id \<Rightarrow> user_id \<Rightarrow> time \<Rightarrow> store \<times> (error + unit)" where
  "assign s actor i collectorId now =
     (case findById s i of
        None \<Rightarrow> (s, Inl REPORT_NOT_FOUND)
      | Some report \<Rightarrow>
          if status report \<noteq> Verified then (s, Inl INVALID_STATUS)
          else
            (case users s collectorId of
               None \<Rightarrow> (s, Inl INVALID_COLLECTOR)
             | Some collector \<Rightarrow>
                 if role collector \<noteq> Collector then (s, Inl INVALID_COLLECTOR)
                 else
                   let (s1, r1) = changeStatus s now i (report\<lparr>assignedTo := Some collectorId\<rparr>)
                                    Assigned actor (''Assigned to '' @ name collector);
                       s2 = findByIdAndUpdate s1 collectorId
                              (\<lambda>u. u\<lparr>assignedReports := addToSet i (assignedReports u)\<rparr>)
                   in (s2, Inr ())))"

text \<open>\<open>PUT /api/reports/:id/start\<close>. Reading \<open>report.assignedTo.toString()\<close> of a report
  that was never assigned throws, and the handler answers \<open>START_ERROR\<close>.\<close>

definition start ::
  "store \<Rightarrow> user_id \<Rightarrow> report_id \<Rightarrow> string option \<Rightarrow> time \<Rightarrow> store \<times> (error + unit)" where
  "start s actor i file now =
     (case findById s i of
        None \<Rightarrow> (s, Inl REPORT_NOT_FOUND)
      | Some report \<Rightarrow>
         (case assignedTo report of
            None \<Rightarrow> (s, Inl START_ERROR)
          | Some a \<Rightarrow>
              if a \<noteq> actor then (s, Inl ACCESS_DENIED)
              else if status report \<noteq> Assigned then (s, Inl INVALID_STATUS)
              else
                let r1 = (case file of
                            None \<Rightarrow> report
                          | Some f \<Rightarrow> report\<lparr>beforeCleanup :=
                                        Some \<lparr>url = f, uploadedBy = actor, uploadedAt = now\<rparr>\<rparr>);
                    (s1, r2) = changeStatus s now i r1 In_progress actor ''Started cleanup work''
                in (s1, Inr ())))"

text \<open>\<open>Math.round((new Date() - startTime) / (1000 * 60))\<close> on integer milliseconds.\<close>

definition minutes_between :: "time \<Rightarrow> time \<Rightarrow> int" where
  "minutes_between startTime now = (now - startTime + 30000) div 60000"

text \<open>\<open>PUT /api/reports/:id/complete\<close>.\<close>

definition complete ::
  "store \<Rightarrow> user_id \<Rightarrow> report_id \<Rightarrow> string option \<Rightarrow> string option \<Rightarrow> time \<Rightarrow> store \<times> (error + unit)" where
  "complete s actor i file nts now =
     (case findById s i of
        None \<Rightarrow> (s, Inl REPORT_NOT_FOUND)
      | Some report \<Rightarrow>
         (case assignedTo report of
            None \<Rightarrow> (s, Inl COMPLETE_ERROR)
          | Some a \<Rightarrow>
              if a \<noteq> actor then (s, Inl ACCESS_DENIED)
              else if status report \<noteq> In_progress then (s, Inl INVALID_STATUS)
              else
                (case file of
                   None \<Rightarrow> (s, Inl NO_AFTER_IMAGE)
                 | Some f \<Rightarrow>
                     let r1 = report\<lparr>afterCleanup :=
                                  Some \<lparr>url = f, uploadedBy = actor, uploadedAt = now\<rparr>,
                                completionNotes := Some (or_default nts [])\<rparr>;
                         r2 = (case find (\<lambda>h. h_status h = In_progress) (statusHistory r1) of
                                 None \<Rightarrow> r1
                               | Some h \<Rightarrow> r1\<lparr>actualCleanupTime :=
                                             Some (minutes_between (changedAt h) now)\<rparr>);
                         (s1, r3) = changeStatus s now i r2 Completed actor
                                      (or_default nts ''Cleanup completed'');
                         s2 = findByIdAndUpdate s1 actor
                                (\<lambda>u. u\<lparr>completedTasks := completedTasks u + 1,
                                       assignedReports := pull i (assignedReports u)\<rparr>)
                     in (s2, Inr ()))))"

text \<open>The \<open>points\<close> field of the body of an award request: absent; a value that is neither
  an integer nor a text (a fraction, \<open>null\<close>, a truth value); an integer, sent as a JSON
  number; or a JSON text.\<close>

datatype points_field = Absent | Not_an_integer | Int_value int | Text_value string

text \<open>\<open>body('points').isInt({ min, max })\<close>. The validator looks at the value as a text, so
  a text that writes an integer in the range passes like the integer itself. There is no
  \<open>toInt()\<close> in the chain: the value stays what it was.\<close>

definition isInt :: "int \<Rightarrow> int \<Rightarrow> points_field \<Rightarrow> bool" where
  "isInt lo hi f =
     (case f of
        Int_value n \<Rightarrow> lo \<le> n \<and> n \<le> hi
      | Text_value t \<Rightarrow> int_text t \<and> lo \<le> text_value t \<and> text_value t \<le> hi
      | _ \<Rightarrow> False)"

text \<open>The number a validated value is cast to when it is assigned to
  \<open>report.pointsAwarded\<close>.\<close>

definition points_of :: "points_field \<Rightarrow> int" where
  "points_of f = (case f of Int_value n \<Rightarrow> n | Text_value t \<Rightarrow> text_value t | _ \<Rightarrow> 0)"

text \<open>\<open>report.citizen.addPoints(points)\<close> with the value of the body: a number is added, a
  text is joined to the balance.\<close>

definition addPoints_body :: "user \<Rightarrow> points_field \<Rightarrow> exn + user" where
  "addPoints_body u f =
     (case f of
        Int_value n \<Rightarrow> addPoints u n
      | Text_value t \<Rightarrow> addPoints_text u t
      | _ \<Rightarrow> Inl Cast_to_Number_failed)"

text \<open>\<open>PUT /api/reports/:id/award-points\<close>. The report is loaded with its citizen populated;
  a citizen that no longer exists, or an \<open>addPoints\<close> that throws or whose save rejects,
  ends in the handler's \<open>catch\<close> with \<open>AWARD_POINTS_ERROR\<close>.\<close>

definition awardPoints ::
  "store \<Rightarrow> user_id \<Rightarrow> report_id \<Rightarrow> points_field \<Rightarrow> time \<Rightarrow> store \<times> (error + unit)" where
  "awardPoints s actor i f now =
     (if \<not> isInt 1 1000 f then (s, Inl VALIDATION_FAILED)
      else
        (case findById s i of
           None \<Rightarrow> (s, Inl REPORT_NOT_FOUND)
         | Some report \<Rightarrow>
             if status report \<noteq> Completed then (s, Inl INVALID_STATUS)
             else if pointsAwarded report > 0 then (s, Inl POINTS_ALREADY_AWARDED)
             else
               (case users s (citizen report) of
                  None \<Rightarrow> (s, Inl AWARD_POINTS_ERROR)
                | Some c \<Rightarrow>
                   (case addPoints_body c f of
                      Inl e \<Rightarrow> (s, Inl AWARD_POINTS_ERROR)
                    | Inr c' \<Rightarrow>
                        let s1 = s\<lparr>users := (users s)(citizen report \<mapsto> c')\<rparr>;
                            (s2, r2) = save_report s1 now i
                                         (report\<lparr>pointsAwarded := points_of f,
                                                 pointsAwardedAt := Some now\<rparr>);
                            s3 = findByIdAndUpdate s2 (citizen report)
                                   (\<lambda>u. u\<lparr>completedReports := completedReports u + 1\<rparr>)
                        in (s3, Inr ())))))"

section \<open>Reward model\<close>

text \<open>\<open>toUpperCase\<close> on ASCII letters, and \<open>str.slice(-n)\<close>.\<close>

definition upper_char :: "char \<Rightarrow> char" where
  "upper_char c =
     (if 97 \<le> (of_char c :: nat) \<and> (of_char c :: nat) \<le> 122 then char_of ((of_char c :: nat) - 32)
      else c)"

definition toUpperCase :: "string \<Rightarrow> string" where
  "toUpperCase str = map upper_char str"

definition slice_last :: "nat \<Rightarrow> string \<Rightarrow> string" where
  "slice_last n str = drop (length str - n) str"

text \<open>\<open>rewardSchema.methods.generateCouponCode\<close>: a prefix from the partner's name (or
  \<open>WMS\<close>), the last six digits of \<open>Date.now()\<close> and four characters drawn at random, which
  the request carries as \<open>rnd\<close>.\<close>

definition generateCouponCode :: "reward \<Rightarrow> time \<Rightarrow> string \<Rightarrow> string" where
  "generateCouponCode r now rnd =
     (let prefix = (case partnerName r of
                      None \<Rightarrow> ''WMS''
                    | Some n \<Rightarrow> if n = [] then ''WMS'' else toUpperCase (take 3 n))
      in prefix @ slice_last 6 (String_nat (nat now)) @ rnd)"

text \<open>\<open>rewardSchema.methods.isAvailable\<close>, at the clock reading \<open>now\<close>.\<close>

definition isAvailable :: "reward \<Rightarrow> time \<Rightarrow> bool" where
  "isAvailable r now =
     (isActive r \<and> remainingQuantity r > 0 \<and> now \<ge> validFrom r \<and> now \<le> validUntil r)"

text \<open>\<open>rewardSchema.methods.redeem\<close>: the updated reward and the new redemption, both of
  which the method saves. The status of the redemption is the default of the schema.\<close>

definition redeem ::
  "reward \<Rightarrow> reward_id \<Rightarrow> user_id \<Rightarrow> time \<Rightarrow> string \<Rightarrow> exn + (reward \<times> redemption)" where
  "redeem r rid userId now rnd =
     (if \<not> isAvailable r now then Inl Reward_is_not_available_for_redemption
      else Inr (r\<lparr>remainingQuantity := remainingQuantity r - 1,
                  totalRedeemed := totalRedeemed r + 1\<rparr>,
                \<lparr>rd_user = userId, rd_reward = rid, pointsUsed = pointsCost r,
                 generatedCode = generateCouponCode r now rnd, rd_status = Active,
                 expiresAt = validUntil r, redeemedAt = now\<rparr>))"

section \<open>Redemption routes\<close>

text \<open>\<open>POST /api/users/rewards/:rewardId/redeem\<close>. \<open>req.user\<close> is the document the
  authentication middleware loaded for \<open>actor\<close>. The handler reads the clock when it checks
  availability (\<open>now1\<close>) and \<open>redeem\<close> reads it again (\<open>now2\<close>). A throwing \<open>deductPoints\<close>
  or \<open>redeem\<close> ends in the handler's \<open>catch\<close> with \<open>REDEEM_ERROR\<close>; what was saved before
  stays saved.\<close>

definition redeem_route ::
  "store \<Rightarrow> user_id \<Rightarrow> reward_id \<Rightarrow> time \<Rightarrow> time \<Rightarrow> string \<Rightarrow> store \<times> (error + redemption)" where
  "redeem_route s actor rewardId now1 now2 rnd =
     (case users s actor of
        None \<Rightarrow> (s, Inl USER_NOT_FOUND)
      | Some u \<Rightarrow>
         (case rewards s rewardId of
            None \<Rightarrow> (s, Inl REWARD_NOT_FOUND)
          | Some reward \<Rightarrow>
              if \<not> isAvailable reward now1 then (s, Inl REWARD_NOT_AVAILABLE)
              else if points u < pointsCost reward then (s, Inl INSUFFICIENT_POINTS)
              else
                (case deductPoints u (pointsCost reward) of
                   Inl e \<Rightarrow> (s, Inl REDEEM_ERROR)
                 | Inr u' \<Rightarrow>
                     let s1 = s\<lparr>users := (users s)(actor \<mapsto> u')\<rparr> in
                     (case redeem reward rewardId actor now2 rnd of
                        Inl e \<Rightarrow> (s1, Inl REDEEM_ERROR)
                      | Inr (reward', rd) \<Rightarrow>
                          (s1\<lparr>rewards := (rewards s1)(rewardId \<mapsto> reward'),
                              redemptions := redemptions s1 @ [rd]\<rparr>, Inr rd)))))"

text \<open>The in-memory router. \<open>rewards.find(r => r._id === id)\<close> yields the first object with
  that identifier, and the decrement mutates that object in place.\<close>

fun update_first :: "('a \<Rightarrow> bool) \<Rightarrow> ('a \<Rightarrow> 'a) \<Rightarrow> 'a list \<Rightarrow> 'a list" where
  "update_first P f [] = []"
| "update_first P f (x # xs) = (if P x then f x # xs else x # update_first P f xs)"

definition thirty_days :: int where
  "thirty_days = 30 * 24 * 60 * 60 * 1000"

text \<open>\<open>POST /api/rewards/:id/redeem\<close>. The request carries the eight random characters of
  the coupon code and the identifier generated for the redemption.\<close>

definition mem_redeem ::
  "store \<Rightarrow> user_id \<Rightarrow> string \<Rightarrow> time \<Rightarrow> string \<Rightarrow> string
     \<Rightarrow> store \<times> (mem_error + mem_redemption)" where
  "mem_redeem s actor rid now code newId =
     (case find (\<lambda>r. m_id r = rid) (mem_rewards s) of
        None \<Rightarrow> (s, Inl Reward_not_found)
      | Some reward \<Rightarrow>
          if \<not> m_isActive reward then (s, Inl Reward_is_not_active)
          else if m_availableQuantity reward \<le> 0 then (s, Inl Reward_is_out_of_stock)
          else if now > m_validUntil reward then (s, Inl Reward_has_expired)
          else
            (case users s actor of
               None \<Rightarrow> (s, Inl User_not_found)
             | Some u \<Rightarrow>
                 if points u < m_pointsRequired reward then (s, Inl Insufficient_points)
                 else
                   let redemption =
                         \<lparr>md_id = newId, md_userId = actor, md_rewardId = m_id reward,
                          md_couponCode = code, md_pointsUsed = m_pointsRequired reward,
                          md_isUsed = False, md_usedAt = None,
                          md_expiresAt = now + thirty_days, md_createdAt = now\<rparr>;
                       s1 = s\<lparr>mem_redemptions := mem_redemptions s @ [redemption]\<rparr>;
                       s2 = s1\<lparr>users := (users s1)
                                (actor \<mapsto> u\<lparr>points := points u - m_pointsRequired reward\<rparr>)\<rparr>;
                       s3 = s2\<lparr>mem_rewards :=
                                update_first (\<lambda>r. m_id r = rid)
                                  (\<lambda>r. r\<lparr>m_availableQuantity := m_availableQuantity r - 1\<rparr>)
                                  (mem_rewards s2)\<rparr>
                   in (s3, Inr redemption)))"

section \<open>Sequences of ledger operations\<close>

text \<open>A call of a points method on the stored user \<open>uid\<close>, followed by its \<open>save()\<close>, and
  the two redemption routes.\<close>

datatype ledger_op =
    AddPoints user_id int
  | DeductPoints user_id int
  | Redeem user_id reward_id time time string
  | MemRedeem user_id string time string string

definition call_method :: "store \<Rightarrow> user_id \<Rightarrow> (user \<Rightarrow> exn + user) \<Rightarrow> store \<times> (exn + unit)" where
  "call_method s uid m =
     (case users s uid of
        None \<Rightarrow> (s, Inr ())
      | Some u \<Rightarrow>
         (case m u of
            Inl e \<Rightarrow> (s, Inl e)
          | Inr u' \<Rightarrow> (s\<lparr>users := (users s)(uid \<mapsto> u')\<rparr>, Inr ())))"

fun ledger_step :: "store \<Rightarrow> ledger_op \<Rightarrow> store" where
  "ledger_step s (AddPoints uid amount) = fst (call_method s uid (\<lambda>u. addPoints u amount))"
| "ledger_step s (DeductPoints uid amount) = fst (call_method s uid (\<lambda>u. deductPoints u amount))"
| "ledger_step s (Redeem actor rewardId now1 now2 rnd) =
     fst (redeem_route s actor rewardId now1 now2 rnd)"
| "ledger_step s (MemRedeem actor rid now code newId) = fst (mem_redeem s actor rid now code newId)"

definition ledger_run :: "store \<Rightarrow> ledger_op list \<Rightarrow> store" where
  "ledger_run s ops = foldl ledger_step s ops"

text \<open>The amounts added in a sequence are all non-negative.\<close>

fun nonneg_add :: "ledger_op \<Rightarrow> bool" where
  "nonneg_add (AddPoints uid amount) = (0 \<le> amount)"
| "nonneg_add _ = True"

text \<open>The stock figures the conservation law is about: the redemptions that reference a
  reward, and for the in-memory router the quantity of the reward \<open>find\<close> yields.\<close>

definition count_redemptions :: "store \<Rightarrow> reward_id \<Rightarrow> int" where
  "count_redemptions s rid = int (length (filter (\<lambda>d. rd_reward d = rid) (redemptions s)))"

definition mem_count :: "store \<Rightarrow> string \<Rightarrow> int" where
  "mem_count s rid = int (length (filter (\<lambda>d. md_rewardId d = rid) (mem_redemptions s)))"

definition mem_stock :: "store \<Rightarrow> string \<Rightarrow> int" where
  "mem_stock s rid =
     (case find (\<lambda>r. m_id r = rid) (mem_rewards s) of
        None \<Rightarrow> 0
      | Some r \<Rightarrow> m_availableQuantity r)"



section \<open>Geospatial helpers\<close>

text \<open>Coordinates are real numbers here, and \<open>Math.sin\<close>, \<open>Math.cos\<close>, \<open>Math.sqrt\<close> and
  \<open>Math.atan2\<close> are the real functions; what the rounding of doubles adds is outside the model.\<close>

definition atan2 :: "real \<Rightarrow> real \<Rightarrow> real" where
  "atan2 y x =
     (if 0 < x then arctan (y / x)
      else if x < 0 then (if 0 \<le> y then arctan (y / x) + pi else arctan (y / x) - pi)
      else if 0 < y then pi / 2
      else if y < 0 then - pi / 2
      else 0)"

text \<open>\<open>reportSchema.statics.calculateDistance\<close> (haversine, Earth radius 6371 km).\<close>

definition calculateDistance :: "real \<Rightarrow> real \<Rightarrow> real \<Rightarrow> real \<Rightarrow> real" where
  "calculateDistance lat1 lng1 lat2 lng2 =
     (let R = 6371;
          dLat = (lat2 - lat1) * pi / 180;
          dLng = (lng2 - lng1) * pi / 180;
          a = sin (dLat / 2) * sin (dLat / 2) +
              cos (lat1 * pi / 180) * cos (lat2 * pi / 180) *
              sin (dLng / 2) * sin (dLng / 2);
          c = 2 * atan2 (sqrt a) (sqrt (1 - a))
      in R * c)"

text \<open>\<open>reportSchema.statics.findNearby\<close>: the query selects, in storage order, the reports
  whose coordinates lie in a latitude/longitude box around the point.\<close>

definition findNearby :: "report list \<Rightarrow> real \<Rightarrow> real \<Rightarrow> real \<Rightarrow> report list" where
  "findNearby reps qlat qlng radiusKm =
     filter (\<lambda>r. qlat - radiusKm / 111 \<le> lat r \<and> lat r \<le> qlat + radiusKm / 111 \<and>
                 qlng - radiusKm / (111 * cos (qlat * pi / 180)) \<le> lng r \<and>
                 lng r \<le> qlng + radiusKm / (111 * cos (qlat * pi / 180))) reps"

text \<open>The specification's reading of \<open>nearby\<close>, for comparison: the reports whose haversine
  distance from the point is at most the radius.\<close>

definition nearby_spec :: "report list \<Rightarrow> real \<Rightarrow> real \<Rightarrow> real \<Rightarrow> report list" where
  "nearby_spec reps qlat qlng radiusKm =
     filter (\<lambda>r. calculateDistance qlat qlng (lat r) (lng r) \<le> radiusKm) reps"

section \<open>The status graph and the operations on reports\<close>

text \<open>The edges of the lifecycle: \<open>submitted \<rightarrow> verified \<rightarrow> assigned \<rightarrow> in_progress \<rightarrow>
  completed\<close> and \<open>submitted \<rightarrow> rejected\<close>.\<close>

fun transition :: "status \<Rightarrow> status \<Rightarrow> bool" where
  "transition Submitted Verified = True"
| "transition Submitted Rejected = True"
| "transition Verified Assigned = True"
| "transition Assigned In_progress = True"
| "transition In_progress Completed = True"
| "transition _ _ = False"

fun valid_path :: "status list \<Rightarrow> bool" where
  "valid_path [] = True"
| "valid_path [x] = True"
| "valid_path (x # y # xs) = (transition x y \<and> valid_path (y # xs))"

definition statuses :: "report \<Rightarrow> status list" where
  "statuses r = map h_status (statusHistory r)"

definition history_ok :: "report \<Rightarrow> bool" where
  "history_ok r =
     (valid_path (Submitted # statuses r) \<and> last (Submitted # statuses r) = status r)"

definition same_track :: "report \<Rightarrow> report \<Rightarrow> bool" where
  "same_track r r' = (status r' = status r \<and> statusHistory r' = statusHistory r)"

definition advances :: "report \<Rightarrow> report \<Rightarrow> bool" where
  "advances r r' =
     (transition (status r) (status r') \<and> statuses r' = statuses r @ [status r'])"

definition tracks :: "store \<Rightarrow> store \<Rightarrow> bool" where
  "tracks s s' =
     (length (reports s') = length (reports s) \<and>
      (\<forall>j < length (reports s).
          same_track (reports s ! j) (reports s' ! j) \<or> advances (reports s ! j) (reports s' ! j)))"

datatype op =
    Submit user_id submit_body "string option" time
  | Verify user_id report_id "action option" "string option" time
  | Assign user_id report_id user_id time
  | Start user_id report_id "string option" time
  | Complete user_id report_id "string option" "string option" time
  | AwardPoints user_id report_id points_field time

fun step :: "store \<Rightarrow> op \<Rightarrow> store" where
  "step s (Submit actor b file now) = fst (submit s actor b file now)"
| "step s (Verify actor i act nts now) = fst (verify s actor i act nts now)"
| "step s (Assign actor i collectorId now) = fst (assign s actor i collectorId now)"
| "step s (Start actor i file now) = fst (start s actor i file now)"
| "step s (Complete actor i file nts now) = fst (complete s actor i file nts now)"
| "step s (AwardPoints actor i f now) = fst (awardPoints s actor i f now)"

definition run :: "store \<Rightarrow> op list \<Rightarrow> store" where
  "run s ops = foldl step s ops"

definition ledger :: "store \<Rightarrow> user_id \<Rightarrow> (role \<times> int) option" where
  "ledger s u = map_option (\<lambda>x. (role x, points x)) (users s u)"

text \<open>The end-to-end scenario: one report taken from submission to the award. The requests
  that follow the submission are named on their own, so that they can be run on a report
  that is in the collection.\<close>

definition after_submission ::
  "report_id \<Rightarrow> user_id \<Rightarrow> user_id \<Rightarrow> string option \<Rightarrow> string \<Rightarrow> string option \<Rightarrow> int \<Rightarrow> time
     \<Rightarrow> op list" where
  "after_submission i a k bimg aimg nts p now =
     [Verify a i (Some Approve) None (now + 1),
      Assign a i k (now + 2),
      Start k i bimg (now + 3),
      Complete k i (Some aimg) nts (now + 4),
      AwardPoints a i (Int_value p) (now + 5)]"

definition happy_path ::
  "report_id \<Rightarrow> user_id \<Rightarrow> user_id \<Rightarrow> user_id \<Rightarrow> submit_body \<Rightarrow> string \<Rightarrow> string option
     \<Rightarrow> string \<Rightarrow> string option \<Rightarrow> int \<Rightarrow> time \<Rightarrow> op list" where
  "happy_path i c a k b img bimg aimg nts p now =
     Submit c b (Some img) now # after_submission i a k bimg aimg nts p now"

section \<open>Concrete data for the worked examples\<close>

definition citizen_u :: user where
  "citizen_u = \<lparr>name = ''Asha'', role = Citizen, points = 10, totalReports = 1,
                 completedReports = 0, assignedReports = [], completedTasks = 0\<rparr>"

definition admin_u :: user where
  "admin_u = \<lparr>name = ''Noor'', role = Admin, points = 0, totalReports = 0,
               completedReports = 0, assignedReports = [], completedTasks = 0\<rparr>"

definition collector_u :: user where
  "collector_u = \<lparr>name = ''Ravi'', role = Collector, points = 0, totalReports = 0,
                   completedReports = 0, assignedReports = [], completedTasks = 0\<rparr>"

definition body0 :: submit_body where
  "body0 = \<lparr>b_title = ''Overflowing bin'', b_description = ''Bin at the corner is full'',
             b_address = ''12 Main St'', b_lat = 40.7128, b_lng = -74.0060, b_priority = None\<rparr>"

definition voucher :: reward where
  "voucher = \<lparr>partnerName = Some ''Local Coffee Co.'', pointsCost = 8, isActive = True,
               totalQuantity = 2, remainingQuantity = 2, validFrom = 0, validUntil = 5000,
               totalRedeemed = 0\<rparr>"

definition reward_1 :: mem_reward where
  "reward_1 = \<lparr>m_id = ''reward_1'', m_pointsRequired = 8, m_isActive = True,
                m_availableQuantity = 50, m_validUntil = 5000\<rparr>"

definition store0 :: store where
  "store0 = \<lparr>users = [1 \<mapsto> citizen_u, 2 \<mapsto> admin_u, 3 \<mapsto> collector_u], reports = [],
              rewards = [7 \<mapsto> voucher], redemptions = [],
              mem_rewards = [reward_1], mem_redemptions = []\<rparr>"

text \<open>Reports as they are stored: each carries its identifier.\<close>

definition fresh_report :: report where
  "fresh_report = (new_Report 1 body0 ''img'')\<lparr>reportId := Some ''WR000001''\<rparr>"

definition fresh_store :: store where
  "fresh_store = store0\<lparr>reports := [fresh_report]\<rparr>"

definition done_report :: report where
  "done_report = (new_Report 1 body0 ''img'')
     \<lparr>reportId := Some ''WR000001'', status := Completed, assignedTo := Some 3,
      statusHistory :=
        [\<lparr>h_status = Verified, changedBy = 2, changedAt = 1, h_notes = ''''\<rparr>,
         \<lparr>h_status = Assigned, changedBy = 2, changedAt = 2, h_notes = ''Assigned to Ravi''\<rparr>,
         \<lparr>h_status = In_progress, changedBy = 3, changedAt = 3, h_notes = ''Started cleanup work''\<rparr>,
         \<lparr>h_status = Completed, changedBy = 3, changedAt = 4, h_notes = ''done''\<rparr>]\<rparr>"

definition rejected_report :: report where
  "rejected_report = (new_Report 1 body0 ''img'')
     \<lparr>reportId := Some ''WR000002'', status := Rejected, verificationNotes := Some ''duplicate'',
      statusHistory := [\<lparr>h_status = Rejected, changedBy = 2, changedAt = 1, h_notes = ''duplicate''\<rparr>]\<rparr>"

definition award_store :: store where
  "award_store = store0\<lparr>reports := [done_report, rejected_report]\<rparr>"

text \<open>A report at the point of the end-to-end scenario, and one on the 180th meridian.\<close>

definition nyc_report :: report where
  "nyc_report = (new_Report 1 body0 ''img'')\<lparr>reportId := Some ''WR000001''\<rparr>"

definition meridian_report :: report where
  "meridian_report =
     (new_Report 1 body0 ''img'')\<lparr>reportId := Some ''WR000002'', lat := 0, lng := - 180\<rparr>"

section \<open>Facts about the award handler\<close>


lemma awardPoints_already:
  assumes "findById s i = Some r" "status r = Completed" "pointsAwarded r > 0"
  shows "awardPoints s actor i f now =
           (s, Inl (if isInt 1 1000 f then POINTS_ALREADY_AWARDED else VALIDATION_FAILED))"
  using assms by (simp add: awardPoints_def)

lemma awardPoints_success:
  assumes "isInt 1 1000 f" "findById s i = Some r" "status r = Completed" "pointsAwarded r \<le> 0"
    "users s (citizen r) = Some c" "addPoints_body c f = Inr c'"
  shows "awardPoints s actor i f now =
     (s\<lparr>users := (users s)(citizen r \<mapsto> c'\<lparr>completedReports := completedReports c' + 1\<rparr>),
        reports := (reports s)[i := r\<lparr>pointsAwarded := points_of f, pointsAwardedAt := Some now,
                                     updatedAt := Some now\<rparr>]\<rparr>, Inr ())"
  using assms
  by (simp add: awardPoints_def save_report_def preSave_def findByIdAndUpdate_def Let_def)

lemma addPoints_body_number:
  "role c = Citizen \<Longrightarrow> addPoints_body c (Int_value p) = Inr (c\<lparr>points := points c + p\<rparr>)"
  by (simp add: addPoints_body_def addPoints_def)



section \<open>Report identifiers\<close>

lemma length_String_nat_le: "n < 10 ^ k \<Longrightarrow> 0 < k \<Longrightarrow> length (String_nat n) \<le> k"
proof (induction k arbitrary: n)
  case 0
  then show ?case by simp
next
  case (Suc k)
  show ?case
  proof (cases "n < 10")
    case True
    then show ?thesis by (simp add: String_nat.simps [of n])
  next
    case False
    then have "0 < k" using Suc.prems by (cases k) auto
    moreover have "n div 10 < 10 ^ k" using Suc.prems by (simp add: less_mult_imp_div_less mult.commute)
    ultimately have "length (String_nat (n div 10)) \<le> k" using Suc.IH by blast
    then show ?thesis using False by (simp add: String_nat.simps [of n])
  qed
qed

lemma length_String_nat_gt: "10 ^ k \<le> n \<Longrightarrow> k < length (String_nat n)"
proof (induction k arbitrary: n)
  case 0
  then show ?case by (simp add: String_nat.simps [of n])
next
  case (Suc k)
  from Suc.prems have p: "10 * 10 ^ k \<le> n" by simp
  have q: "(1::nat) \<le> 10 ^ k" by simp
  from p q have "\<not> n < 10" by linarith
  moreover have "10 ^ k \<le> n div 10" using Suc.prems by (simp add: less_eq_div_iff_mult_less_eq mult.commute)
  ultimately have "\<not> n < 10" "10 ^ k \<le> n div 10" by blast+
  then show ?case using Suc.IH [of "n div 10"] by (simp add: String_nat.simps [of n])
qed

lemma digit_value_digit: "d < 10 \<Longrightarrow> digit_value (digit d) = d"
proof -
  assume "d < 10"
  then have "d \<in> {0, 1, 2, 3, 4, 5, 6, 7, 8, 9}" by auto
  then show ?thesis by (auto simp: digit_value_def digit_def)
qed

lemma decimal_value_snoc: "decimal_value (str @ [c]) = 10 * decimal_value str + digit_value c"
  by (simp add: decimal_value_def)

lemma decimal_value_String_nat: "decimal_value (String_nat n) = n"
proof (induction n rule: String_nat.induct)
  case (1 n)
  show ?case
  proof (cases "n < 10")
    case True
    then show ?thesis
      by (simp add: String_nat.simps [of n] decimal_value_def digit_value_digit)
  next
    case False
    then show ?thesis
      using "1" by (simp add: String_nat.simps [of n] decimal_value_snoc digit_value_digit)
  qed
qed

lemma decimal_value_zeros: "decimal_value (replicate k (CHR ''0'') @ str) = decimal_value str"
  by (induction k) (simp_all add: decimal_value_def digit_value_def)

section \<open>Facts about the redemption routes\<close>

lemma redeem_route_ok:
  assumes "users s actor = Some u" "rewards s rid = Some r" "isAvailable r now1"
    "pointsCost r \<le> points u" "role u = Citizen" "isAvailable r now2"
  shows "redeem_route s actor rid now1 now2 rnd =
     (s\<lparr>users := (users s)(actor \<mapsto> u\<lparr>points := points u - pointsCost r\<rparr>),
        rewards := (rewards s)(rid \<mapsto> r\<lparr>remainingQuantity := remainingQuantity r - 1,
                                         totalRedeemed := totalRedeemed r + 1\<rparr>),
        redemptions := redemptions s @
          [\<lparr>rd_user = actor, rd_reward = rid, pointsUsed = pointsCost r,
            generatedCode = generateCouponCode r now2 rnd, rd_status = Active,
            expiresAt = validUntil r, redeemedAt = now2\<rparr>]\<rparr>,
      Inr \<lparr>rd_user = actor, rd_reward = rid, pointsUsed = pointsCost r,
           generatedCode = generateCouponCode r now2 rnd, rd_status = Active,
           expiresAt = validUntil r, redeemedAt = now2\<rparr>)"
  using assms by (simp add: redeem_route_def deductPoints_def redeem_def)

lemma redeem_route_late:
  assumes "users s actor = Some u" "rewards s rid = Some r" "isAvailable r now1"
    "pointsCost r \<le> points u" "role u = Citizen" "\<not> isAvailable r now2"
  shows "redeem_route s actor rid now1 now2 rnd =
     (s\<lparr>users := (users s)(actor \<mapsto> u\<lparr>points := points u - pointsCost r\<rparr>)\<rparr>,
      Inl REDEEM_ERROR)"
  using assms by (simp add: redeem_route_def deductPoints_def redeem_def)

lemma redeem_route_cases:
  obtains (rejected) e where "redeem_route s actor rid now1 now2 rnd = (s, Inl e)"
  | (late) u r where "users s actor = Some u" "rewards s rid = Some r" "isAvailable r now1"
      "pointsCost r \<le> points u" "role u = Citizen" "\<not> isAvailable r now2"
  | (ok) u r where "users s actor = Some u" "rewards s rid = Some r" "isAvailable r now1"
      "pointsCost r \<le> points u" "role u = Citizen" "isAvailable r now2"
proof (cases "users s actor")
  case None
  then show ?thesis using rejected by (simp add: redeem_route_def)
next
  case u: (Some u)
  show ?thesis
  proof (cases "rewards s rid")
    case None
    then show ?thesis using rejected u by (simp add: redeem_route_def)
  next
    case r: (Some r)
    show ?thesis
    proof (cases "isAvailable r now1 \<and> pointsCost r \<le> points u \<and> role u = Citizen")
      case False
      then show ?thesis using rejected u r
        by (cases "isAvailable r now1"; cases "pointsCost r \<le> points u")
          (simp_all add: redeem_route_def deductPoints_def not_le)
    next
      case True
      then show ?thesis using late ok u r by (cases "isAvailable r now2") blast+
    qed
  qed
qed

lemma redeem_route_rejects:
  assumes "redeem_route s actor rid now1 now2 rnd = (s', Inl e)" "e \<noteq> REDEEM_ERROR"
  shows "s' = s"
proof (cases rule: redeem_route_cases [of s actor rid now1 now2 rnd])
  case (rejected e)
  then show ?thesis using assms by simp
next
  case (late u r)
  then show ?thesis using assms redeem_route_late [OF late, of rnd] by simp
next
  case (ok u r)
  then show ?thesis using assms redeem_route_ok [OF ok, of rnd] by simp
qed

lemma find_update_first_same:
  "(\<And>x. P (f x) = P x) \<Longrightarrow> find P (update_first P f xs) = map_option f (find P xs)"
  by (induction xs) simp_all

lemma find_update_first_other:
  "(\<And>x. Q x \<Longrightarrow> \<not> P x \<and> \<not> P (f x)) \<Longrightarrow> find P (update_first Q f xs) = find P xs"
  by (induction xs) auto

lemma find_SomeD: "find P xs = Some x \<Longrightarrow> P x"
  by (induction xs) (auto split: if_splits)

lemma mem_redeem_ok:
  assumes "find (\<lambda>r. m_id r = rid) (mem_rewards s) = Some r" "m_isActive r"
    "0 < m_availableQuantity r" "now \<le> m_validUntil r" "users s actor = Some u"
    "m_pointsRequired r \<le> points u"
  shows "mem_redeem s actor rid now code newId =
     (s\<lparr>mem_redemptions := mem_redemptions s @
          [\<lparr>md_id = newId, md_userId = actor, md_rewardId = rid, md_couponCode = code,
            md_pointsUsed = m_pointsRequired r, md_isUsed = False, md_usedAt = None,
            md_expiresAt = now + thirty_days, md_createdAt = now\<rparr>],
        users := (users s)(actor \<mapsto> u\<lparr>points := points u - m_pointsRequired r\<rparr>),
        mem_rewards := update_first (\<lambda>r. m_id r = rid)
           (\<lambda>r. r\<lparr>m_availableQuantity := m_availableQuantity r - 1\<rparr>) (mem_rewards s)\<rparr>,
      Inr \<lparr>md_id = newId, md_userId = actor, md_rewardId = rid, md_couponCode = code,
           md_pointsUsed = m_pointsRequired r, md_isUsed = False, md_usedAt = None,
           md_expiresAt = now + thirty_days, md_createdAt = now\<rparr>)"
  using assms find_SomeD [OF assms(1)] by (simp add: mem_redeem_def Let_def)

lemma mem_redeem_cases:
  obtains (rejected) e where "mem_redeem s actor rid now code newId = (s, Inl e)"
  | (ok) u r where "find (\<lambda>r. m_id r = rid) (mem_rewards s) = Some r" "m_isActive r"
    "0 < m_availableQuantity r" "now \<le> m_validUntil r" "users s actor = Some u"
    "m_pointsRequired r \<le> points u"
proof (cases "find (\<lambda>r. m_id r = rid) (mem_rewards s)")
  case None
  then show ?thesis using rejected by (simp add: mem_redeem_def)
next
  case r: (Some r)
  show ?thesis
  proof (cases "m_isActive r \<and> 0 < m_availableQuantity r \<and> now \<le> m_validUntil r")
    case False
    then show ?thesis using rejected r
      by (cases "m_isActive r"; cases "0 < m_availableQuantity r")
        (simp_all add: mem_redeem_def not_le not_less)
  next
    case av: True
    show ?thesis
    proof (cases "users s actor")
      case None
      then show ?thesis using rejected r av by (simp add: mem_redeem_def not_le not_less)
    next
      case u: (Some u)
      show ?thesis
      proof (cases "m_pointsRequired r \<le> points u")
        case False
        then show ?thesis using rejected r av u by (simp add: mem_redeem_def not_le not_less)
      next
        case True
        then show ?thesis using ok r av u by blast
      qed
    qed
  qed
qed

section \<open>Balances stay non-negative\<close>

lemma call_method_addPoints_nonneg:
  assumes "users s uid = Some u" "0 \<le> points u" "0 \<le> amount"
  shows "\<exists>u'. users (fst (call_method s v (\<lambda>u. addPoints u amount))) uid = Some u' \<and> 0 \<le> points u'"
  using assms by (auto simp: call_method_def addPoints_def split: option.split)

lemma call_method_deductPoints_nonneg:
  assumes "users s uid = Some u" "0 \<le> points u"
  shows "\<exists>u'. users (fst (call_method s v (\<lambda>u. deductPoints u amount))) uid = Some u' \<and> 0 \<le> points u'"
  using assms by (auto simp: call_method_def deductPoints_def split: option.split)

lemma redeem_route_nonneg:
  assumes "users s uid = Some u" "0 \<le> points u"
  shows "\<exists>u'. users (fst (redeem_route s actor rid now1 now2 rnd)) uid = Some u' \<and> 0 \<le> points u'"
proof (cases rule: redeem_route_cases [of s actor rid now1 now2 rnd])
  case (rejected e)
  then show ?thesis using assms by simp
next
  case (late v r)
  then show ?thesis using assms redeem_route_late [OF late, of rnd] by auto
next
  case (ok v r)
  then show ?thesis using assms redeem_route_ok [OF ok, of rnd] by auto
qed

lemma mem_redeem_nonneg:
  assumes "users s uid = Some u" "0 \<le> points u"
  shows "\<exists>u'. users (fst (mem_redeem s actor rid now code newId)) uid = Some u' \<and> 0 \<le> points u'"
proof (cases rule: mem_redeem_cases [of s actor rid now code newId])
  case (rejected e)
  then show ?thesis using assms by simp
next
  case (ok v r)
  then show ?thesis using assms mem_redeem_ok [OF ok, of code newId] by auto
qed

lemma ledger_step_nonneg:
  assumes "users s uid = Some u" "0 \<le> points u" "nonneg_add op"
  shows "\<exists>u'. users (ledger_step s op) uid = Some u' \<and> 0 \<le> points u'"
proof (cases op)
  case (AddPoints v amount)
  then show ?thesis using assms call_method_addPoints_nonneg [of s uid u amount v] by simp
next
  case (DeductPoints v amount)
  then show ?thesis using assms call_method_deductPoints_nonneg [of s uid u v amount] by simp
next
  case (Redeem actor rid now1 now2 rnd)
  then show ?thesis using assms redeem_route_nonneg [of s uid u actor rid now1 now2 rnd] by simp
next
  case (MemRedeem actor rid now code newId)
  then show ?thesis using assms mem_redeem_nonneg [of s uid u actor rid now code newId] by simp
qed

lemma ledger_run_nonneg:
  assumes "users s uid = Some u" "0 \<le> points u" "list_all nonneg_add ops"
  shows "\<exists>u'. users (ledger_run s ops) uid = Some u' \<and> 0 \<le> points u'"
  using assms unfolding ledger_run_def
proof (induction ops arbitrary: s u)
  case Nil
  then show ?case by simp
next
  case (Cons op ops)
  from Cons.prems obtain u1 where "users (ledger_step s op) uid = Some u1" "0 \<le> points u1"
    using ledger_step_nonneg [of s uid u op] by auto
  then show ?case using Cons.IH [of "ledger_step s op" u1] Cons.prems(3) by simp
qed

lemma list_all_take: "list_all P xs \<Longrightarrow> list_all P (take n xs)"
  by (auto simp: list_all_iff dest: in_set_takeD)

lemma deductPoints_exceeding:
  "points u < amount \<Longrightarrow> deductPoints u amount = Inl Insufficient_points_or_invalid_user_role"
  by (simp add: deductPoints_def)

section \<open>Stock conservation\<close>

lemma count_redemptions_simps [simp]:
  "count_redemptions (s\<lparr>users := us\<rparr>) rid = count_redemptions s rid"
  "count_redemptions (s\<lparr>mem_rewards := mr\<rparr>) rid = count_redemptions s rid"
  "count_redemptions (s\<lparr>mem_redemptions := md\<rparr>) rid = count_redemptions s rid"
  "count_redemptions (s\<lparr>rewards := rw\<rparr>) rid = count_redemptions s rid"
  by (simp_all add: count_redemptions_def)

lemma mem_simps [simp]:
  "mem_count (s\<lparr>users := us\<rparr>) rid = mem_count s rid"
  "mem_count (s\<lparr>rewards := rw\<rparr>) rid = mem_count s rid"
  "mem_count (s\<lparr>redemptions := rd\<rparr>) rid = mem_count s rid"
  "mem_count (s\<lparr>mem_rewards := mr\<rparr>) rid = mem_count s rid"
  "mem_stock (s\<lparr>users := us\<rparr>) rid = mem_stock s rid"
  "mem_stock (s\<lparr>rewards := rw\<rparr>) rid = mem_stock s rid"
  "mem_stock (s\<lparr>redemptions := rd\<rparr>) rid = mem_stock s rid"
  "mem_stock (s\<lparr>mem_redemptions := md\<rparr>) rid = mem_stock s rid"
  by (simp_all add: mem_count_def mem_stock_def)

lemma call_method_stock [simp]:
  "rewards (fst (call_method s uid m)) = rewards s"
  "redemptions (fst (call_method s uid m)) = redemptions s"
  "mem_rewards (fst (call_method s uid m)) = mem_rewards s"
  "mem_redemptions (fst (call_method s uid m)) = mem_redemptions s"
  by (simp_all add: call_method_def split: option.split sum.split)






lemma mem_stock_decrement:
  assumes "mem_rewards s' = update_first (\<lambda>r. m_id r = rid)
       (\<lambda>r. r\<lparr>m_availableQuantity := m_availableQuantity r - 1\<rparr>) (mem_rewards s)"
  shows "mem_stock s' j =
   (if j = rid \<and> find (\<lambda>r. m_id r = rid) (mem_rewards s) \<noteq> None
    then mem_stock s j - 1 else mem_stock s j)"
proof (cases "j = rid")
  case True
  have "find (\<lambda>r. m_id r = rid) (update_first (\<lambda>r. m_id r = rid)
          (\<lambda>r. r\<lparr>m_availableQuantity := m_availableQuantity r - 1\<rparr>) (mem_rewards s)) =
        map_option (\<lambda>r. r\<lparr>m_availableQuantity := m_availableQuantity r - 1\<rparr>)
          (find (\<lambda>r. m_id r = rid) (mem_rewards s))"
    by (rule find_update_first_same) simp
  then show ?thesis using True assms by (simp add: mem_stock_def split: option.split)
next
  case False
  have "find (\<lambda>r. m_id r = j) (update_first (\<lambda>r. m_id r = rid)
          (\<lambda>r. r\<lparr>m_availableQuantity := m_availableQuantity r - 1\<rparr>) (mem_rewards s)) =
        find (\<lambda>r. m_id r = j) (mem_rewards s)"
    by (rule find_update_first_other) (use False in simp)
  then show ?thesis using False assms by (simp add: mem_stock_def)
qed





section \<open>Every handler keeps or advances the status of a report\<close>

lemma tracks_refl [simp]: "tracks s s"
  by (simp add: tracks_def same_track_def)

lemma tracks_users [simp]: "tracks s (s1\<lparr>users := us\<rparr>) = tracks s s1"
  by (simp add: tracks_def)

lemma tracks_findByIdAndUpdate [simp]: "tracks s (findByIdAndUpdate s1 u f) = tracks s s1"
  by (simp add: findByIdAndUpdate_def split: option.split)

lemma preSave_track [simp]:
  "status (preSave n now False r) = status r"
  "statusHistory (preSave n now False r) = statusHistory r"
  by (simp_all add: preSave_def)

lemma preSave_same [simp]:
  "same_track a (preSave n now False r) = same_track a r"
  "advances a (preSave n now False r) = advances a r"
  by (simp_all add: same_track_def advances_def statuses_def)

lemma tracks_save_same:
  assumes "i < length (reports s)" "same_track (reports s ! i) r"
  shows "tracks s (fst (save_report s now i r))"
  using assms by (simp add: tracks_def save_report_def Let_def nth_list_update same_track_def)

lemma reports_changeStatus:
  "reports (fst (changeStatus s now i r st who n)) = (reports s)[i := snd (changeStatus s now i r st who n)]"
  by (simp add: changeStatus_def save_report_def Let_def)

lemma changeStatus_doc [simp]:
  "status (snd (changeStatus s now i r st who n)) = st"
  "statuses (snd (changeStatus s now i r st who n)) = statuses r @ [st]"
  by (cases st; simp add: changeStatus_def save_report_def Let_def statuses_def preSave_def)+

lemma tracks_changeStatus:
  assumes "i < length (reports s1)" "tracks s s1" "same_track (reports s1 ! i) r"
    "same_track (reports s ! i) (reports s1 ! i)" "transition (status r) st"
  shows "tracks s (fst (changeStatus s1 now i r st who n))"
proof -
  have "statuses r = statuses (reports s ! i)" "status r = status (reports s ! i)"
    using assms(3,4) by (simp_all add: statuses_def same_track_def)
  then show ?thesis
    using assms(1,2,5)
    by (simp add: tracks_def reports_changeStatus nth_list_update advances_def)
qed

lemma tracks_save_after:
  assumes "tracks s s1" "i < length (reports s1)" "same_track (reports s1 ! i) r"
  shows "tracks s (fst (save_report s1 now i r))"
proof -
  have "same_track a b \<or> advances a b \<Longrightarrow> same_track b r \<Longrightarrow> same_track a r \<or> advances a r"
    for a b
    by (auto simp: same_track_def advances_def statuses_def)
  then show ?thesis
    using assms by (auto simp: tracks_def save_report_def Let_def nth_list_update)
qed

lemma same_track_simps [simp]:
  "same_track r r"
  "same_track r (r'\<lparr>verificationNotes := v\<rparr>) = same_track r r'"
  "same_track r (r'\<lparr>assignedTo := a\<rparr>) = same_track r r'"
  "same_track r (r'\<lparr>beforeCleanup := b\<rparr>) = same_track r r'"
  "same_track r (r'\<lparr>afterCleanup := b\<rparr>) = same_track r r'"
  "same_track r (r'\<lparr>completionNotes := c\<rparr>) = same_track r r'"
  "same_track r (r'\<lparr>actualCleanupTime := t\<rparr>) = same_track r r'"
  "same_track r (r'\<lparr>pointsAwarded := p\<rparr>) = same_track r r'"
  "same_track r (r'\<lparr>pointsAwardedAt := pa\<rparr>) = same_track r r'"
  by (simp_all add: same_track_def)

lemma changeStatus_length [simp]:
  "length (reports (fst (changeStatus s now i r st who n))) = length (reports s)"
  by (simp add: reports_changeStatus)

lemma changeStatus_nth [simp]:
  "i < length (reports s) \<Longrightarrow>
   reports (fst (changeStatus s now i r st who n)) ! i = snd (changeStatus s now i r st who n)"
  by (simp add: reports_changeStatus)

lemma changeStatus_same [simp]:
  "same_track (snd (changeStatus s now i r st who n)) r' \<longleftrightarrow>
     status r' = st \<and> statusHistory r' = statusHistory (snd (changeStatus s now i r st who n))"
  by (simp add: same_track_def)

lemma verify_tracks: "tracks s (fst (verify s actor i act nts now))"
  by (auto simp: verify_def Let_def case_prod_beta findById_def split: option.split
      intro!: tracks_changeStatus tracks_save_after)

lemma assign_tracks: "tracks s (fst (assign s actor i collectorId now))"
  by (auto simp: assign_def Let_def case_prod_beta findById_def split: option.split
      intro!: tracks_changeStatus tracks_save_after)

lemma start_tracks: "tracks s (fst (start s actor i file now))"
  by (auto simp: start_def Let_def case_prod_beta findById_def split: option.split
      intro!: tracks_changeStatus tracks_save_after)

lemma complete_tracks: "tracks s (fst (complete s actor i file nts now))"
  by (auto simp: complete_def Let_def case_prod_beta findById_def split: option.split
      intro!: tracks_changeStatus tracks_save_after)

lemma awardPoints_tracks: "tracks s (fst (awardPoints s actor i f now))"
  by (auto simp: awardPoints_def Let_def case_prod_beta findById_def split: option.split sum.split
      intro!: tracks_changeStatus tracks_save_after)

section \<open>Paths of the status graph\<close>

lemma valid_path_snoc:
  "valid_path (xs @ [y]) \<longleftrightarrow> xs = [] \<or> (valid_path xs \<and> transition (last xs) y)"
  by (induction xs rule: valid_path.induct) auto

lemma valid_path_tl: "valid_path (x # xs) \<Longrightarrow> valid_path xs"
  by (cases xs) simp_all

lemma history_ok_step:
  assumes "history_ok r" "same_track r r' \<or> advances r r'"
  shows "history_ok r'"
  using assms(2)
proof
  assume "same_track r r'"
  then show ?thesis using assms(1) by (simp add: history_ok_def same_track_def statuses_def)
next
  assume adv: "advances r r'"
  from assms(1) have vp: "valid_path (Submitted # statuses r)"
    and l: "last (Submitted # statuses r) = status r"
    unfolding history_ok_def by blast+
  from adv have t: "transition (status r) (status r')"
    and e: "statuses r' = statuses r @ [status r']"
    unfolding advances_def by blast+
  have "valid_path ((Submitted # statuses r) @ [status r'])"
    unfolding valid_path_snoc using vp l t by auto
  then show ?thesis
    unfolding history_ok_def e by simp
qed

lemma submit_reports:
  "reports (fst (submit s actor b file now)) = reports s \<or>
   (\<exists>r. reports (fst (submit s actor b file now)) = reports s @ [r] \<and>
        status r = Submitted \<and> statusHistory r = [])"
  by (simp add: submit_def Let_def save_new_def findByIdAndUpdate_def preSave_def new_Report_def
      split: option.split)

lemma step_tracks:
  "\<forall>j < length (reports s).
     j < length (reports (step s op)) \<and>
     (same_track (reports s ! j) (reports (step s op) ! j) \<or>
      advances (reports s ! j) (reports (step s op) ! j))"
proof (cases op)
  case (Submit actor b upl now)
  then show ?thesis
    using submit_reports [of s actor b upl now] by (auto simp: nth_append)
next
  case (Verify actor i act nts now)
  then show ?thesis using verify_tracks [of s actor i act nts now] by (simp add: tracks_def)
next
  case (Assign actor i collectorId now)
  then show ?thesis using assign_tracks [of s actor i collectorId now] by (simp add: tracks_def)
next
  case (Start actor i upl now)
  then show ?thesis using start_tracks [of s actor i upl now] by (simp add: tracks_def)
next
  case (Complete actor i upl nts now)
  then show ?thesis using complete_tracks [of s actor i upl nts now] by (simp add: tracks_def)
next
  case (AwardPoints actor i f now)
  then show ?thesis using awardPoints_tracks [of s actor i f now] by (simp add: tracks_def)
qed

lemma step_new_reports:
  "\<forall>j < length (reports (step s op)). length (reports s) \<le> j \<longrightarrow>
      status (reports (step s op) ! j) = Submitted \<and> statusHistory (reports (step s op) ! j) = []"
proof (cases op)
  case (Submit actor b upl now)
  then show ?thesis
    using submit_reports [of s actor b upl now] by (auto simp: nth_append)
next
  case (Verify actor i act nts now)
  then show ?thesis using verify_tracks [of s actor i act nts now] by (simp add: tracks_def)
next
  case (Assign actor i collectorId now)
  then show ?thesis using assign_tracks [of s actor i collectorId now] by (simp add: tracks_def)
next
  case (Start actor i upl now)
  then show ?thesis using start_tracks [of s actor i upl now] by (simp add: tracks_def)
next
  case (Complete actor i upl nts now)
  then show ?thesis using complete_tracks [of s actor i upl nts now] by (simp add: tracks_def)
next
  case (AwardPoints actor i f now)
  then show ?thesis using awardPoints_tracks [of s actor i f now] by (simp add: tracks_def)
qed

lemma step_history_ok:
  assumes "\<forall>r \<in> set (reports s). history_ok r"
  shows "\<forall>r \<in> set (reports (step s op)). history_ok r"
proof
  fix r' assume "r' \<in> set (reports (step s op))"
  then obtain j where j: "j < length (reports (step s op))" "reports (step s op) ! j = r'"
    by (auto simp: in_set_conv_nth)
  show "history_ok r'"
  proof (cases "j < length (reports s)")
    case True
    then have "history_ok (reports s ! j)" using assms by simp
    then show ?thesis using step_tracks [of s op] True j history_ok_step by blast
  next
    case False
    then have "status r' = Submitted \<and> statusHistory r' = []"
      using step_new_reports [of s op] j by auto
    then show ?thesis by (simp add: history_ok_def statuses_def)
  qed
qed

lemma run_history_ok:
  "\<forall>r \<in> set (reports s). history_ok r \<Longrightarrow> \<forall>r \<in> set (reports (run s ops)). history_ok r"
  unfolding run_def
proof (induction ops arbitrary: s)
  case Nil
  then show ?case by simp
next
  case (Cons op ops)
  then show ?case using step_history_ok [of s op] by simp
qed

lemma terminal_no_transition: "st = Completed \<or> st = Rejected \<Longrightarrow> \<not> transition st st'"
  by (cases st'; auto)

section \<open>Status histories are paths of the graph\<close>

text \<open>C4. Starting from a store in which every report's history is a path of the status graph
  that leads from \<open>submitted\<close> to the report's status (a store without reports is one), any
  sequence of submit, verify, assign, start, complete and award requests keeps it so: the
  statuses recorded in \<open>statusHistory\<close> form a valid path. Every single request leaves the
  status and history of a report as they were or moves the status along one edge of the graph
  and appends it to the history, so no state is skipped; a report that is \<open>completed\<close> or
  \<open>rejected\<close> keeps its status and history under every request.\<close>

theorem status_history_valid_path:
  assumes "\<forall>r \<in> set (reports s). history_ok r"
  shows "(\<forall>r \<in> set (reports (run s ops)). valid_path (statuses r) \<and> history_ok r) \<and>
    (\<forall>op. \<forall>j < length (reports s).
        (status (reports (step s op) ! j) = status (reports s ! j) \<and>
         statusHistory (reports (step s op) ! j) = statusHistory (reports s ! j)) \<or>
        (transition (status (reports s ! j)) (status (reports (step s op) ! j)) \<and>
         statuses (reports (step s op) ! j) =
           statuses (reports s ! j) @ [status (reports (step s op) ! j)])) \<and>
    (\<forall>op. \<forall>j < length (reports s).
        status (reports s ! j) = Completed \<or> status (reports s ! j) = Rejected \<longrightarrow>
        status (reports (step s op) ! j) = status (reports s ! j) \<and>
        statusHistory (reports (step s op) ! j) = statusHistory (reports s ! j))"
proof (intro conjI)
  show "\<forall>r \<in> set (reports (run s ops)). valid_path (statuses r) \<and> history_ok r"
    using run_history_ok [OF assms, of ops] by (auto simp: history_ok_def dest: valid_path_tl)
  show moves: "\<forall>op. \<forall>j < length (reports s).
        (status (reports (step s op) ! j) = status (reports s ! j) \<and>
         statusHistory (reports (step s op) ! j) = statusHistory (reports s ! j)) \<or>
        (transition (status (reports s ! j)) (status (reports (step s op) ! j)) \<and>
         statuses (reports (step s op) ! j) =
           statuses (reports s ! j) @ [status (reports (step s op) ! j)])"
    using step_tracks [of s] by (simp add: same_track_def advances_def)
  show "\<forall>op. \<forall>j < length (reports s).
        status (reports s ! j) = Completed \<or> status (reports s ! j) = Rejected \<longrightarrow>
        status (reports (step s op) ! j) = status (reports s ! j) \<and>
        statusHistory (reports (step s op) ! j) = statusHistory (reports s ! j)"
    using moves terminal_no_transition by metis
qed

lemma rejected_report_history_ok: "history_ok rejected_report" "history_ok done_report"
  by (simp_all add: history_ok_def statuses_def rejected_report_def done_report_def new_Report_def)

theorem status_history_valid_path_witness:
  "list_all history_ok (reports award_store) \<and>
   list_all (\<lambda>r. valid_path (statuses r))
     (reports (run award_store [Verify 2 1 (Some Approve) None 9, Assign 2 1 3 10])) \<and>
   status (reports award_store ! 1) = Rejected \<and>
   status (reports (step award_store (Assign 2 1 3 10)) ! 1) = Rejected \<and>
   status (reports award_store ! 0) = Completed \<and>
   status (reports (step award_store (Verify 2 0 (Some Approve) None 9)) ! 0) = Completed"
proof -
  have ok: "\<forall>r \<in> set (reports award_store). history_ok r"
    using rejected_report_history_ok by (simp add: award_store_def)
  have st: "status (reports award_store ! 1) = Rejected" "status (reports award_store ! 0) = Completed"
    "length (reports award_store) = 2"
    by (simp_all add: award_store_def rejected_report_def done_report_def new_Report_def)
  note T = status_history_valid_path [OF ok, of "[Verify 2 1 (Some Approve) None 9, Assign 2 1 3 10]"]
  note p1 = T [THEN conjunct1] and p3 = T [THEN conjunct2, THEN conjunct2]
  have a: "\<forall>r \<in> set (reports (run award_store [Verify 2 1 (Some Approve) None 9, Assign 2 1 3 10])).
       valid_path (statuses r)"
    using p1 by blast
  have b: "status (reports (step award_store (Assign 2 1 3 10)) ! 1) = Rejected"
    using p3 [THEN spec, of "Assign 2 1 3 10", THEN spec, of 1] st by simp
  have c: "status (reports (step award_store (Verify 2 0 (Some Approve) None 9)) ! 0) = Completed"
    using p3 [THEN spec, of "Verify 2 0 (Some Approve) None 9", THEN spec, of 0] st by simp
  show ?thesis
    using ok a b c st by (simp add: list_all_iff)
qed

section \<open>The effect of each successful request\<close>

lemma findById_SomeD: "findById s i = Some r \<Longrightarrow> i < length (reports s) \<and> reports s ! i = r"
  by (simp add: findById_def split: if_splits)

lemma changeStatus_fields [simp]:
  "citizen (snd (changeStatus s now i r st who n)) = citizen r"
  "pointsAwarded (snd (changeStatus s now i r st who n)) = pointsAwarded r"
  "assignedTo (snd (changeStatus s now i r st who n)) = assignedTo r"
  "users (fst (changeStatus s now i r st who n)) = users s"
  by (cases st; simp add: changeStatus_def save_report_def Let_def preSave_def)+

lemma findById_changeStatus [simp]:
  "i < length (reports s) \<Longrightarrow>
   findById (fst (changeStatus s now i r st who n)) i = Some (snd (changeStatus s now i r st who n))"
  by (simp add: findById_def)

lemma ledger_findByIdAndUpdate_points:
  "(\<And>u. role (f u) = role u \<and> points (f u) = points u) \<Longrightarrow>
   ledger (findByIdAndUpdate s uid f) = ledger s"
  by (auto simp: ledger_def findByIdAndUpdate_def fun_eq_iff split: option.split)

lemma reports_findByIdAndUpdate [simp]:
  "reports (findByIdAndUpdate s uid f) = reports s"
  by (simp add: findByIdAndUpdate_def split: option.split)

lemma findById_findByIdAndUpdate [simp]:
  "findById (findByIdAndUpdate s uid f) i = findById s i"
  by (simp add: findById_def findByIdAndUpdate_def split: option.split)

lemma ledger_reports_update [simp]: "ledger (s\<lparr>reports := x\<rparr>) = ledger s"
  by (simp add: ledger_def fun_eq_iff)

lemma ledger_changeStatus [simp]:
  "ledger (fst (changeStatus s now i r st who n)) = ledger s"
  by (simp add: ledger_def fun_eq_iff)

lemma statuses_simps [simp]:
  "statuses (r\<lparr>assignedTo := a\<rparr>) = statuses r"
  "statuses (r\<lparr>beforeCleanup := b\<rparr>) = statuses r"
  "statuses (r\<lparr>afterCleanup := b\<rparr>) = statuses r"
  "statuses (r\<lparr>completionNotes := c\<rparr>) = statuses r"
  "statuses (r\<lparr>actualCleanupTime := t\<rparr>) = statuses r"
  by (simp_all add: statuses_def)

lemma save_new_rejects:
  "save_new s now (new_Report c b f) = Inl Path_reportId_is_required"
  by (simp add: save_new_def new_Report_def)

lemma submit_rejected:
  "reportValidation b \<Longrightarrow> submit s c b (Some f) now = (s, Inl SUBMISSION_ERROR)"
  by (simp add: submit_def save_new_rejects)

lemma submit_unchanged: "fst (submit s c b upl now) = s"
  by (cases upl) (simp_all add: submit_def save_new_rejects)

lemma verify_effect:
  assumes "findById s i = Some r" "status r = Submitted"
  shows "\<exists>s' r'. verify s actor i (Some Approve) nts now = (s', Inr ()) \<and>
           findById s' i = Some r' \<and>
           status r' = Verified \<and> statuses r' = statuses r @ [Verified] \<and>
           citizen r' = citizen r \<and> pointsAwarded r' = pointsAwarded r \<and>
           ledger s' = ledger s"
  using assms findById_SomeD [OF assms(1)]
  by (simp add: verify_def Let_def case_prod_beta)

lemma assign_effect:
  assumes "findById s i = Some r" "status r = Verified"
    "users s k = Some ku" "role ku = Collector"
  shows "\<exists>s' r'. assign s actor i k now = (s', Inr ()) \<and>
           findById s' i = Some r' \<and>
           status r' = Assigned \<and> statuses r' = statuses r @ [Assigned] \<and>
           citizen r' = citizen r \<and> pointsAwarded r' = pointsAwarded r \<and>
           assignedTo r' = Some k \<and> ledger s' = ledger s"
  using assms findById_SomeD [OF assms(1)]
  by (simp add: assign_def Let_def case_prod_beta ledger_findByIdAndUpdate_points)

lemma start_effect:
  assumes "findById s i = Some r" "status r = Assigned" "assignedTo r = Some k"
  shows "\<exists>s' r'. start s k i upl now = (s', Inr ()) \<and>
           findById s' i = Some r' \<and>
           status r' = In_progress \<and> statuses r' = statuses r @ [In_progress] \<and>
           citizen r' = citizen r \<and> pointsAwarded r' = pointsAwarded r \<and>
           assignedTo r' = Some k \<and> ledger s' = ledger s"
  using assms findById_SomeD [OF assms(1)]
  by (cases upl) (simp_all add: start_def Let_def case_prod_beta)

lemma complete_effect:
  assumes "findById s i = Some r" "status r = In_progress" "assignedTo r = Some k"
  shows "\<exists>s' r'. complete s k i (Some f) nts now = (s', Inr ()) \<and>
           findById s' i = Some r' \<and>
           status r' = Completed \<and> statuses r' = statuses r @ [Completed] \<and>
           citizen r' = citizen r \<and> pointsAwarded r' = pointsAwarded r \<and>
           ledger s' = ledger s"
  using assms findById_SomeD [OF assms(1)]
  by (simp add: complete_def Let_def case_prod_beta ledger_findByIdAndUpdate_points
      split: option.split)

lemma awardPoints_effect:
  assumes "findById s i = Some r" "status r = Completed" "pointsAwarded r = 0"
    "ledger s (citizen r) = Some (Citizen, bal)" "1 \<le> p" "p \<le> 1000"
  shows "\<exists>s' r'. awardPoints s actor i (Int_value p) now = (s', Inr ()) \<and>
           findById s' i = Some r' \<and>
           status r' = Completed \<and> statuses r' = statuses r \<and>
           citizen r' = citizen r \<and> pointsAwarded r' = p \<and>
           ledger s' (citizen r) = Some (Citizen, bal + p)"
proof -
  from assms(4) obtain c where c: "users s (citizen r) = Some c" "role c = Citizen" "points c = bal"
    by (auto simp: ledger_def)
  show ?thesis
    using assms c findById_SomeD [OF assms(1)]
    by (simp add: awardPoints_def isInt_def points_of_def addPoints_body_def addPoints_def
        save_report_def preSave_def findByIdAndUpdate_def Let_def findById_def statuses_def
        ledger_def)
qed

lemma after_submission_effect:
  assumes "findById s i = Some r" "status r = Submitted" "statusHistory r = []"
    "pointsAwarded r = 0" "ledger s (citizen r) = Some (Citizen, bal)"
    "users s k = Some ku" "role ku = Collector" "1 \<le> p" "p \<le> 1000"
  shows "\<exists>r'. findById (run s (after_submission i a k bimg aimg nts p now)) i = Some r' \<and>
           status r' = Completed \<and> pointsAwarded r' = p \<and> citizen r' = citizen r \<and>
           statuses r' = [Verified, Assigned, In_progress, Completed] \<and>
           ledger (run s (after_submission i a k bimg aimg nts p now)) (citizen r) =
             Some (Citizen, bal + p)"
proof -
  let ?c = "citizen r"
  have 1: "statuses r = []" using assms(3) by (simp add: statuses_def)
  obtain s2 r2 where 2: "verify s a i (Some Approve) None (now + 1) = (s2, Inr ())"
    "findById s2 i = Some r2" "status r2 = Verified" "statuses r2 = [Verified]"
    "citizen r2 = ?c" "pointsAwarded r2 = 0" "ledger s2 = ledger s"
    using verify_effect [OF assms(1,2), of a None "now + 1"] 1 assms(4) by auto
  have k2: "\<exists>ku. users s2 k = Some ku \<and> role ku = Collector"
    using 2(7) assms(6,7) by (auto simp: ledger_def fun_eq_iff dest!: spec [of _ k])
  then obtain ku2 where ku2: "users s2 k = Some ku2" "role ku2 = Collector" by blast
  obtain s3 r3 where 3: "assign s2 a i k (now + 2) = (s3, Inr ())"
    "findById s3 i = Some r3" "status r3 = Assigned" "statuses r3 = [Verified, Assigned]"
    "citizen r3 = ?c" "pointsAwarded r3 = 0" "assignedTo r3 = Some k" "ledger s3 = ledger s"
    using assign_effect [OF 2(2,3) ku2, of a "now + 2"] 2 by auto
  obtain s4 r4 where 4: "start s3 k i bimg (now + 3) = (s4, Inr ())"
    "findById s4 i = Some r4" "status r4 = In_progress"
    "statuses r4 = [Verified, Assigned, In_progress]"
    "citizen r4 = ?c" "pointsAwarded r4 = 0" "assignedTo r4 = Some k" "ledger s4 = ledger s"
    using start_effect [OF 3(2,3,7), of bimg "now + 3"] 3 by auto
  obtain s5 r5 where 5: "complete s4 k i (Some aimg) nts (now + 4) = (s5, Inr ())"
    "findById s5 i = Some r5" "status r5 = Completed"
    "statuses r5 = [Verified, Assigned, In_progress, Completed]"
    "citizen r5 = ?c" "pointsAwarded r5 = 0" "ledger s5 = ledger s"
    using complete_effect [OF 4(2,3,7), of aimg nts "now + 4"] 4 by auto
  have "ledger s5 (citizen r5) = Some (Citizen, bal)"
    using 5 assms(5) by simp
  from awardPoints_effect [OF 5(2,3,6) this assms(8,9), of a "now + 5"]
  obtain s6 r6 where 6: "awardPoints s5 a i (Int_value p) (now + 5) = (s6, Inr ())"
    "findById s6 i = Some r6" "status r6 = Completed"
    "statuses r6 = [Verified, Assigned, In_progress, Completed]"
    "citizen r6 = ?c" "pointsAwarded r6 = p" "ledger s6 ?c = Some (Citizen, bal + p)"
    using 5 by auto
  have "run s (after_submission i a k bimg aimg nts p now) = s6"
    by (simp add: run_def after_submission_def 2 3 4 5 6)
  then show ?thesis using 6 by simp
qed

section \<open>Earning points\<close>

text \<open>C7, as the code has it. \<open>addPoints\<close> does depend on the role: for a citizen it succeeds
  for every amount and adds exactly that amount to the balance, changing nothing else; for an
  admin or a collector it throws and adds nothing, so it is not true that it never fails
  once the user is resolved, whatever the role.\<close>

theorem addPoints_citizen_only:
  "(role u = Citizen \<longrightarrow>
      (\<exists>u'. addPoints u amount = Inr u' \<and> points u' = points u + amount \<and>
            u' = u\<lparr>points := points u'\<rparr>)) \<and>
   (role u \<noteq> Citizen \<longrightarrow> addPoints u amount = Inl Only_citizens_can_earn_points)"
  by (simp add: addPoints_def)

theorem addPoints_citizen_only_witness:
  "role citizen_u = Citizen \<and>
   (\<exists>u'. addPoints citizen_u 50 = Inr u' \<and> points u' = 60) \<and>
   role admin_u \<noteq> Citizen \<and> addPoints admin_u 50 = Inl Only_citizens_can_earn_points"
  using addPoints_citizen_only [of citizen_u 50] addPoints_citizen_only [of admin_u 50]
  by (auto simp add: citizen_u_def admin_u_def)

text \<open>A resolved collector and a positive amount: the call throws.\<close>

theorem addPoints_any_role_counterexample:
  "0 < (50::int) \<and> addPoints collector_u 50 = Inl Only_citizens_can_earn_points"
  by (simp add: addPoints_def collector_u_def)

section \<open>Awarding points\<close>

lemma award_store_report0:
  "findById award_store 0 = Some done_report" "status done_report = Completed"
  "pointsAwarded done_report = 0" "citizen done_report = 1"
  "users award_store 1 = Some citizen_u" "role citizen_u = Citizen" "points citizen_u = 10"
  by (simp_all add: findById_def award_store_def store0_def done_report_def new_Report_def
      citizen_u_def)

text \<open>C1, as the code has it. On a completed report with no points awarded yet, whose
  submitting user exists and has the role citizen, a call whose points value is a JSON number,
  an integer between 1 and 1000, succeeds, adds exactly that value to the citizen's balance
  and sets \<open>pointsAwarded\<close> to it; every later call on the same report fails and leaves the
  whole store unchanged, with \<open>POINTS_ALREADY_AWARDED\<close> when its points value passes
  validation and \<open>VALIDATION_FAILED\<close> when it does not. Without the bounds on the value the
  first call does not succeed. A points value sent as a text is left out of the statement: it
  passes validation when it writes an integer in the range, and is then joined to the
  balance, not added.\<close>

theorem awardPoints_once:
  assumes "findById s i = Some r" and "status r = Completed" and "pointsAwarded r = 0"
    and "users s (citizen r) = Some c" and "role c = Citizen"
    and "1 \<le> p" and "p \<le> 1000"
  shows "\<exists>s1 c1 r1.
           awardPoints s actor i (Int_value p) now = (s1, Inr ()) \<and>
           users s1 (citizen r) = Some c1 \<and> points c1 = points c + p \<and>
           findById s1 i = Some r1 \<and> pointsAwarded r1 = p \<and> status r1 = Completed \<and>
           citizen r1 = citizen r \<and>
           (\<forall>actor' f now'. awardPoints s1 actor' i f now' =
              (s1, Inl (if isInt 1 1000 f then POINTS_ALREADY_AWARDED else VALIDATION_FAILED)))"
proof -
  let ?c1 = "c\<lparr>points := points c + p, completedReports := completedReports c + 1\<rparr>"
  let ?r1 = "r\<lparr>pointsAwarded := p, pointsAwardedAt := Some now, updatedAt := Some now\<rparr>"
  let ?s1 = "s\<lparr>users := (users s)(citizen r \<mapsto> ?c1), reports := (reports s)[i := ?r1]\<rparr>"
  have valid: "isInt 1 1000 (Int_value p)" "points_of (Int_value p) = p"
    using assms(6,7) by (simp_all add: isInt_def points_of_def)
  from assms have first: "awardPoints s actor i (Int_value p) now = (?s1, Inr ())"
    using awardPoints_success [OF valid(1) assms(1,2) _ assms(4)
        addPoints_body_number [OF assms(5)], of actor now] valid(2)
    by simp
  from assms(1) have found: "findById ?s1 i = Some ?r1"
    by (simp add: findById_def split: if_splits)
  have again: "awardPoints ?s1 actor' i f now' =
      (?s1, Inl (if isInt 1 1000 f then POINTS_ALREADY_AWARDED else VALIDATION_FAILED))"
    for actor' f now'
    using found assms(2) assms(6) by (intro awardPoints_already [where r = ?r1]) simp_all
  show ?thesis
    using first found again assms(2) by (intro exI [of _ ?s1] exI [of _ ?c1] exI [of _ ?r1]) simp
qed

theorem awardPoints_once_witness:
  "\<exists>s1 c1 r1.
     awardPoints award_store 2 0 (Int_value 50) 7 = (s1, Inr ()) \<and>
     users s1 1 = Some c1 \<and> points c1 = 60 \<and>
     findById s1 0 = Some r1 \<and> pointsAwarded r1 = 50 \<and>
     awardPoints s1 2 0 (Int_value 50) 8 = (s1, Inl POINTS_ALREADY_AWARDED)"
proof -
  have v: "isInt 1 1000 (Int_value 50)" by (simp add: isInt_def)
  obtain s1 c1 r1 where
    "awardPoints award_store 2 0 (Int_value 50) 7 = (s1, Inr ())"
    "users s1 (citizen done_report) = Some c1" "points c1 = points citizen_u + 50"
    "findById s1 0 = Some r1" "pointsAwarded r1 = 50"
    "\<forall>actor' f now'. awardPoints s1 actor' 0 f now' =
        (s1, Inl (if isInt 1 1000 f then POINTS_ALREADY_AWARDED else VALIDATION_FAILED))"
    using awardPoints_once [OF award_store_report0(1,2,3) _ award_store_report0(6), of 50 2 7]
      award_store_report0(4,5)
    by auto
  then show ?thesis
    using v award_store_report0(4,7) by (intro exI [of _ s1] exI [of _ c1] exI [of _ r1]) simp
qed

text \<open>A first call on a completed report with the points value 1001 is refused. A first
  call with the body \<open>{"points": "50"}\<close> succeeds and sets \<open>pointsAwarded\<close> to 50, but the
  balance of the citizen goes from 10 to 1050, not to 60: the handler passes the text on
  unconverted and \<open>this.points += points\<close> joins it to the balance.\<close>

theorem awardPoints_first_call_counterexample:
  "findById award_store 0 = Some done_report \<and> status done_report = Completed \<and>
   pointsAwarded done_report = 0 \<and>
   users award_store (citizen done_report) = Some citizen_u \<and> points citizen_u = 10 \<and>
   awardPoints award_store 2 0 (Int_value 1001) 7 = (award_store, Inl VALIDATION_FAILED) \<and>
   isInt 1 1000 (Text_value ''50'') \<and>
   (\<exists>s1 c1 r1. awardPoints award_store 2 0 (Text_value ''50'') 7 = (s1, Inr ()) \<and>
      users s1 (citizen done_report) = Some c1 \<and> points c1 = 1050 \<and>
      points c1 \<noteq> points citizen_u + 50 \<and>
      findById s1 0 = Some r1 \<and> pointsAwarded r1 = 50)"
proof -
  have refused: "awardPoints award_store 2 0 (Int_value 1001) 7 =
      (award_store, Inl VALIDATION_FAILED)"
    by (simp add: awardPoints_def isInt_def)
  have fifty: "int_text ''50''" "text_value ''50'' = 50"
    by (simp_all add: int_text_def strip_sign_def is_digit_def text_value_def decimal_value_def
        digit_value_def)
  then have valid: "isInt 1 1000 (Text_value ''50'')" "points_of (Text_value ''50'') = 50"
    by (simp_all add: isInt_def points_of_def)
  have joined: "String_int (points citizen_u) @ ''50'' = ''1050''"
    by (simp add: citizen_u_def String_int_def String_nat.simps digit_def)
  have number: "Number_text ''1050'' = Some 1050"
    by (simp add: Number_text_def int_text_def strip_sign_def is_digit_def text_value_def
        decimal_value_def digit_value_def)
  have added: "addPoints_body citizen_u (Text_value ''50'') = Inr (citizen_u\<lparr>points := 1050\<rparr>)"
    using award_store_report0(6) by (simp add: addPoints_body_def addPoints_text_def joined number)
  have le: "pointsAwarded done_report \<le> 0"
    using award_store_report0(3) by simp
  have users: "users award_store (citizen done_report) = Some citizen_u"
    using award_store_report0(4,5) by simp
  note first = awardPoints_success [OF valid(1) award_store_report0(1,2) le users added, of 2 7]
  have found: "findById (fst (awardPoints award_store 2 0 (Text_value ''50'') 7)) 0 =
      Some (done_report\<lparr>pointsAwarded := 50, pointsAwardedAt := Some 7, updatedAt := Some 7\<rparr>)"
    using award_store_report0(1) by (simp add: first valid(2) findById_def split: if_splits)
  have "\<exists>s1 c1 r1. awardPoints award_store 2 0 (Text_value ''50'') 7 = (s1, Inr ()) \<and>
      users s1 (citizen done_report) = Some c1 \<and> points c1 = 1050 \<and>
      points c1 \<noteq> points citizen_u + 50 \<and>
      findById s1 0 = Some r1 \<and> pointsAwarded r1 = 50"
    using found award_store_report0(7)
    by (intro exI [of _ "fst (awardPoints award_store 2 0 (Text_value ''50'') 7)"]
        exI [of _ "citizen_u\<lparr>points := 1050, completedReports := completedReports citizen_u + 1\<rparr>"]
        exI [of _ "done_report\<lparr>pointsAwarded := 50, pointsAwardedAt := Some 7,
                       updatedAt := Some 7\<rparr>"])
      (simp add: first)
  then show ?thesis
    using award_store_report0(1,2,3,7) users refused valid(1) by simp
qed



section \<open>The end-to-end scenario\<close>

lemma store0_facts:
  "reportValidation body0" "ledger store0 1 = Some (Citizen, 10)"
  "users store0 3 = Some collector_u" "role collector_u = Collector" "length (reports store0) = 0"
  by (simp_all add: reportValidation_def body0_def ledger_def store0_def citizen_u_def
      collector_u_def)

lemma fresh_store_facts:
  "findById fresh_store 0 = Some fresh_report" "status fresh_report = Submitted"
  "statusHistory fresh_report = []" "pointsAwarded fresh_report = 0"
  "ledger fresh_store (citizen fresh_report) = Some (Citizen, 10)"
  "users fresh_store 3 = Some collector_u" "role collector_u = Collector"
  "citizen fresh_report = 1" "lat fresh_report = 40.7128" "lng fresh_report = - 74.0060"
  by (simp_all add: findById_def fresh_store_def fresh_report_def new_Report_def ledger_def
      store0_def citizen_u_def collector_u_def body0_def)

lemma not_found_unchanged:
  assumes "findById s i = None"
  shows "fst (verify s a i act nts t) = s" "fst (assign s a i k t) = s"
    "fst (start s k i bimg t) = s" "fst (complete s k i aimg nts t) = s"
    "fst (awardPoints s a i f t) = s"
  using assms
  by (simp_all add: verify_def assign_def start_def complete_def awardPoints_def
      split: option.split)

text \<open>C5, as the code has it, for the part of the scenario that the code carries out. Take a
  report that is in the collection in status \<open>submitted\<close>, with an empty history and no
  points, whose citizen exists, and an existing collector. The sequence verify (approve),
  assign, start, complete (with an after image), award (a number between 1 and 1000) ends
  with the report \<open>completed\<close>, \<open>pointsAwarded\<close> equal to the value and the citizen's
  balance increased by it. The status history has exactly four entries, in order
  \<open>verified\<close>, \<open>assigned\<close>, \<open>in_progress\<close>, \<open>completed\<close>: no request records a
  \<open>submitted\<close> entry. The submission itself is not part of the statement: the handler
  rejects every submission.\<close>

theorem happy_path_after_submission:
  assumes "findById s i = Some r" and "status r = Submitted" and "statusHistory r = []"
    and "pointsAwarded r = 0" and "ledger s (citizen r) = Some (Citizen, bal)"
    and "users s k = Some ku" and "role ku = Collector" and "1 \<le> p" and "p \<le> 1000"
  shows "\<exists>r'. findById (run s (after_submission i a k bimg aimg nts p now)) i = Some r' \<and>
           status r' = Completed \<and> pointsAwarded r' = p \<and> citizen r' = citizen r \<and>
           length (statusHistory r') = 4 \<and>
           statuses r' = [Verified, Assigned, In_progress, Completed] \<and>
           ledger (run s (after_submission i a k bimg aimg nts p now)) (citizen r) =
             Some (Citizen, bal + p)"
proof -
  obtain r' where r:
    "findById (run s (after_submission i a k bimg aimg nts p now)) i = Some r'"
    "status r' = Completed" "pointsAwarded r' = p" "citizen r' = citizen r"
    "statuses r' = [Verified, Assigned, In_progress, Completed]"
    "ledger (run s (after_submission i a k bimg aimg nts p now)) (citizen r) =
       Some (Citizen, bal + p)"
    using after_submission_effect [OF assms, of a bimg aimg nts now] by blast
  from r(5) have "length (statuses r') = 4" by simp
  then have "length (statusHistory r') = 4" by (simp add: statuses_def)
  with r show ?thesis by blast
qed

theorem happy_path_after_submission_witness:
  "findById fresh_store 0 = Some fresh_report \<and> status fresh_report = Submitted \<and>
   statusHistory fresh_report = [] \<and> pointsAwarded fresh_report = 0 \<and>
   lat fresh_report = 40.7128 \<and> lng fresh_report = - 74.0060 \<and>
   ledger fresh_store 1 = Some (Citizen, 10) \<and>
   users fresh_store 3 = Some collector_u \<and> role collector_u = Collector \<and>
   (\<exists>r'. findById (run fresh_store (after_submission 0 2 3 None ''after'' (Some ''done'') 50 100)) 0
            = Some r' \<and>
         status r' = Completed \<and> pointsAwarded r' = 50 \<and> length (statusHistory r') = 4 \<and>
         statuses r' = [Verified, Assigned, In_progress, Completed] \<and>
         ledger (run fresh_store (after_submission 0 2 3 None ''after'' (Some ''done'') 50 100)) 1
            = Some (Citizen, 60))"
  using happy_path_after_submission [where p = 50 and a = 2 and bimg = None
      and aimg = "''after''" and nts = "Some ''done''" and now = 100,
      OF fresh_store_facts(1,2,3,4,5,6,7)]
    fresh_store_facts
  by auto

text \<open>The scenario of the claim, run on a store with one citizen, one admin, one collector
  and no reports: the submission is valid, it is answered with \<open>SUBMISSION_ERROR\<close>, and the
  six requests leave the store as it was, without a report and with the balance at 10. Run
  on a report that is in the collection, the five requests after the submission leave a
  history of four entries, not five.\<close>

theorem happy_path_counterexample:
  "reportValidation body0 \<and> b_lat body0 = 40.7128 \<and> b_lng body0 = - 74.0060 \<and>
   submit store0 1 body0 (Some ''img'') 100 = (store0, Inl SUBMISSION_ERROR) \<and>
   run store0 (happy_path 0 1 2 3 body0 ''img'' None ''after'' (Some ''done'') 50 100) = store0 \<and>
   reports store0 = [] \<and> ledger store0 1 = Some (Citizen, 10) \<and>
   statuses (reports (run fresh_store
       (after_submission 0 2 3 None ''after'' (Some ''done'') 50 100)) ! 0)
     = [Verified, Assigned, In_progress, Completed] \<and>
   length (statusHistory (reports (run fresh_store
       (after_submission 0 2 3 None ''after'' (Some ''done'') 50 100)) ! 0)) \<noteq> 5"
proof -
  have none: "findById store0 0 = None" "reports store0 = []"
    by (simp_all add: findById_def store0_def)
  have sub: "submit store0 1 body0 (Some ''img'') 100 = (store0, Inl SUBMISSION_ERROR)"
    using store0_facts(1) by (rule submit_rejected)
  have same: "run store0 (happy_path 0 1 2 3 body0 ''img'' None ''after'' (Some ''done'') 50 100)
      = store0"
    by (simp add: run_def happy_path_def after_submission_def submit_unchanged
        not_found_unchanged [OF none(1)])
  obtain r where r:
    "findById (run fresh_store (after_submission 0 2 3 None ''after'' (Some ''done'') 50 100)) 0
       = Some r"
    "statuses r = [Verified, Assigned, In_progress, Completed]"
    using after_submission_effect [where p = 50 and a = 2 and bimg = None
        and aimg = "''after''" and nts = "Some ''done''" and now = 100,
        OF fresh_store_facts(1,2,3,4,5,6,7)]
    by auto
  from r(2) have "length (statuses r) = 4" by simp
  then have "length (statusHistory r) = 4" by (simp add: statuses_def)
  then have hist: "statuses (reports (run fresh_store
       (after_submission 0 2 3 None ''after'' (Some ''done'') 50 100)) ! 0)
     = [Verified, Assigned, In_progress, Completed] \<and>
   length (statusHistory (reports (run fresh_store
       (after_submission 0 2 3 None ''after'' (Some ''done'') 50 100)) ! 0)) \<noteq> 5"
    using r findById_SomeD [OF r(1)] by simp
  show ?thesis
    using store0_facts(1,2) none(2) sub same hist by (simp add: body0_def)
qed

section \<open>The format of report identifiers\<close>

text \<open>The body of the \<open>pre('save')\<close> hook, taken alone: on a new report without an
  identifier it sets \<open>WR\<close> followed by the decimal digits of the report count plus one,
  padded on the left with zeros to at least six digits. The digits denote count plus one,
  and the identifier has 8 characters as long as count plus one is below 1000000.\<close>

lemma preSave_reportId:
  assumes "reportId r = None \<or> reportId r = Some []"
  shows "reportId (preSave count now True r) =
           Some (''WR'' @ padStart 6 (CHR ''0'') (String_nat (count + 1)))"
    and "decimal_value (padStart 6 (CHR ''0'') (String_nat (count + 1))) = count + 1"
    and "count + 1 < 1000000 \<Longrightarrow>
           length (''WR'' @ padStart 6 (CHR ''0'') (String_nat (count + 1))) = 8"
proof -
  show "reportId (preSave count now True r) =
           Some (''WR'' @ padStart 6 (CHR ''0'') (String_nat (count + 1)))"
    using assms by (auto simp: preSave_def)
  show "decimal_value (padStart 6 (CHR ''0'') (String_nat (count + 1))) = count + 1"
    by (simp add: padStart_def decimal_value_zeros decimal_value_String_nat)
  show "length (''WR'' @ padStart 6 (CHR ''0'') (String_nat (count + 1))) = 8"
    if "count + 1 < 1000000"
  proof -
    have "count + 1 < 10 ^ 6" using that by simp
    then have "length (String_nat (count + 1)) \<le> 6" by (rule length_String_nat_le) simp
    then show ?thesis by (simp add: padStart_def)
  qed
qed

text \<open>C9 does not hold of the code, through a slip: the hook that generates the identifier is
  never reached by a report without one. \<open>reportId\<close> is \<open>required\<close>, validation comes
  before the hook, and the submission handler, the only place that creates reports, builds
  them without a \<open>reportId\<close>. So \<open>save()\<close> rejects every new report, whatever the store, the
  citizen and the body are; every submission leaves the store as it was and returns no
  report; the first valid submission to an empty collection is answered with
  \<open>SUBMISSION_ERROR\<close>, where the hook, had it run, would have set \<open>WR000001\<close>.\<close>

theorem reportId_never_generated:
  "save_new s now (new_Report c b f) = Inl Path_reportId_is_required \<and>
   fst (submit s c b upl now) = s \<and>
   (\<exists>e. snd (submit s c b upl now) = Inl e) \<and>
   reportValidation body0 \<and> reports store0 = [] \<and>
   submit store0 1 body0 (Some ''img'') 5 = (store0, Inl SUBMISSION_ERROR) \<and>
   reportId (preSave (length (reports store0)) 5 True (new_Report 1 body0 ''img'')) =
     Some ''WR000001''"
proof -
  have rejected: "save_new s now (new_Report c b f) = Inl Path_reportId_is_required"
    for s now c b f
    by (simp add: save_new_def new_Report_def)
  have unchanged: "fst (submit s c b upl now) = s \<and> (\<exists>e. snd (submit s c b upl now) = Inl e)"
    by (cases upl) (simp_all add: submit_def rejected)
  have valid: "reportValidation body0" "reports store0 = []"
    by (simp_all add: reportValidation_def body0_def store0_def)
  have first: "submit store0 1 body0 (Some ''img'') 5 = (store0, Inl SUBMISSION_ERROR)"
    using valid(1) by (simp add: submit_def rejected)
  have hook: "reportId (preSave (length (reports store0)) 5 True (new_Report 1 body0 ''img'')) =
      Some ''WR000001''"
    by (simp add: valid(2) new_Report_def preSave_def padStart_def String_nat.simps digit_def
        eval_nat_numeral)
  show ?thesis
    using rejected unchanged valid first hook by simp
qed

section \<open>Balance, stock and redemption\<close>

lemma store0_ledger_facts:
  "users store0 1 = Some citizen_u" "points citizen_u = 10" "role citizen_u = Citizen"
  "rewards store0 7 = Some voucher" "redemptions store0 = []"
  "mem_rewards store0 = [reward_1]" "mem_redemptions store0 = []"
  by (simp_all add: store0_def citizen_u_def)

text \<open>C2, as the code has it. For a user with a non-negative balance and any sequence of
  \<open>addPoints\<close> calls with non-negative amounts and of \<open>deductPoints\<close> calls and redemption
  requests (through either route) with arbitrary arguments, on this or any other user, the
  balance is non-negative after every prefix of the sequence; a \<open>deductPoints\<close> call whose
  amount exceeds the balance throws and leaves the store as it was. \<open>addPoints\<close> itself does
  not look at the sign of the amount, so with arbitrary amounts the balance can go
  negative.\<close>

theorem balance_never_negative:
  assumes "users s uid = Some u" and "0 \<le> points u" and "list_all nonneg_add ops"
  shows "(\<forall>n. \<exists>u'. users (ledger_run s (take n ops)) uid = Some u' \<and> 0 \<le> points u') \<and>
         (\<forall>amount. points u < amount \<longrightarrow>
            call_method s uid (\<lambda>u. deductPoints u amount) =
              (s, Inl Insufficient_points_or_invalid_user_role))"
proof (intro conjI allI impI)
  fix n
  show "\<exists>u'. users (ledger_run s (take n ops)) uid = Some u' \<and> 0 \<le> points u'"
    using assms(1,2) list_all_take [OF assms(3), of n] by (rule ledger_run_nonneg)
next
  fix amount assume "points u < amount"
  then show "call_method s uid (\<lambda>u. deductPoints u amount) =
               (s, Inl Insufficient_points_or_invalid_user_role)"
    using assms(1) by (simp add: call_method_def deductPoints_exceeding)
qed

theorem balance_never_negative_witness:
  "(\<exists>u'. users (ledger_run store0
            [AddPoints 1 5, DeductPoints 1 100, Redeem 1 7 10 11 ''AB12'',
             MemRedeem 1 ''reward_1'' 10 ''CODE1234'' ''redemption_1'', DeductPoints 1 3]) 1 = Some u'
         \<and> 0 \<le> points u') \<and>
   call_method store0 1 (\<lambda>u. deductPoints u 100) =
     (store0, Inl Insufficient_points_or_invalid_user_role)"
proof -
  let ?ops = "[AddPoints 1 5, DeductPoints 1 100, Redeem 1 7 10 11 ''AB12'',
               MemRedeem 1 ''reward_1'' 10 ''CODE1234'' ''redemption_1'', DeductPoints 1 3]"
  have ok: "list_all nonneg_add ?ops" "0 \<le> points citizen_u" "points citizen_u < 100"
    "take 5 ?ops = ?ops"
    by (simp_all add: citizen_u_def)
  note T = balance_never_negative [OF store0_ledger_facts(1) ok(2) ok(1)]
  from T [THEN conjunct1, THEN spec, of 5] T [THEN conjunct2, THEN spec, of 100] ok(3,4)
  show ?thesis by simp
qed

text \<open>Adding -20 to a balance of 10 leaves -10.\<close>

theorem addPoints_negative_counterexample:
  "map_option points (users store0 1) = Some 10 \<and>
   map_option points (users (ledger_run store0 [AddPoints 1 (- 20)]) 1) = Some (- 10)"
  by (simp add: ledger_run_def call_method_def addPoints_def store0_def citizen_u_def)



text \<open>C6, as the code has it. A successful request of the redemption route
  \<open>/api/users/rewards/:rewardId/redeem\<close> decrements the reward's remaining quantity by 1,
  deducts exactly its points cost from the user's balance and appends a redemption with a
  generated coupon code, status \<open>active\<close>, \<open>pointsUsed\<close> equal to the points cost and
  \<open>expiresAt\<close> equal to the reward's \<open>validUntil\<close>; a request the route rejects at its own
  checks (user or reward not found, reward not available, insufficient points) leaves the
  store as it was. A successful request of the in-memory router \<open>/api/rewards/:id/redeem\<close>
  decrements the quantity by 1, deducts exactly the points required and appends a redemption
  with the coupon code, \<open>isUsed = false\<close> and \<open>pointsUsed\<close> equal to the points required, but
  with \<open>expiresAt\<close> thirty days after the request rather than the reward's \<open>validUntil\<close>; a
  failed request leaves the store as it was.\<close>

theorem redeem_effects:
  "(redeem_route s actor rid now1 now2 rnd = (s', Inr rd) \<longrightarrow>
      (\<exists>u r. users s actor = Some u \<and> rewards s rid = Some r \<and>
         s' = s\<lparr>users := (users s)(actor \<mapsto> u\<lparr>points := points u - pointsCost r\<rparr>),
                rewards := (rewards s)(rid \<mapsto> r\<lparr>remainingQuantity := remainingQuantity r - 1,
                                                 totalRedeemed := totalRedeemed r + 1\<rparr>),
                redemptions := redemptions s @ [rd]\<rparr> \<and>
         rd = \<lparr>rd_user = actor, rd_reward = rid, pointsUsed = pointsCost r,
               generatedCode = generateCouponCode r now2 rnd, rd_status = Active,
               expiresAt = validUntil r, redeemedAt = now2\<rparr>)) \<and>
   (redeem_route s actor rid now1 now2 rnd = (s', Inl e) \<and> e \<noteq> REDEEM_ERROR \<longrightarrow> s' = s) \<and>
   (mem_redeem s actor mid now code newId = (m', Inr md) \<longrightarrow>
      (\<exists>u r. users s actor = Some u \<and> find (\<lambda>r. m_id r = mid) (mem_rewards s) = Some r \<and>
         m' = s\<lparr>mem_redemptions := mem_redemptions s @ [md],
                users := (users s)(actor \<mapsto> u\<lparr>points := points u - m_pointsRequired r\<rparr>),
                mem_rewards := update_first (\<lambda>r. m_id r = mid)
                  (\<lambda>r. r\<lparr>m_availableQuantity := m_availableQuantity r - 1\<rparr>) (mem_rewards s)\<rparr> \<and>
         mem_stock m' mid = mem_stock s mid - 1 \<and>
         md = \<lparr>md_id = newId, md_userId = actor, md_rewardId = mid, md_couponCode = code,
               md_pointsUsed = m_pointsRequired r, md_isUsed = False, md_usedAt = None,
               md_expiresAt = now + thirty_days, md_createdAt = now\<rparr>)) \<and>
   (mem_redeem s actor mid now code newId = (m', Inl me) \<longrightarrow> m' = s)"
proof (intro conjI impI)
  assume res: "redeem_route s actor rid now1 now2 rnd = (s', Inr rd)"
  then obtain u r where ok: "users s actor = Some u" "rewards s rid = Some r"
    "isAvailable r now1" "pointsCost r \<le> points u" "role u = Citizen" "isAvailable r now2"
    using redeem_route_late [of s actor _ rid _ now1 now2 rnd]
    by (cases rule: redeem_route_cases [of s actor rid now1 now2 rnd]) auto
  show "\<exists>u r. users s actor = Some u \<and> rewards s rid = Some r \<and>
         s' = s\<lparr>users := (users s)(actor \<mapsto> u\<lparr>points := points u - pointsCost r\<rparr>),
                rewards := (rewards s)(rid \<mapsto> r\<lparr>remainingQuantity := remainingQuantity r - 1,
                                                 totalRedeemed := totalRedeemed r + 1\<rparr>),
                redemptions := redemptions s @ [rd]\<rparr> \<and>
         rd = \<lparr>rd_user = actor, rd_reward = rid, pointsUsed = pointsCost r,
               generatedCode = generateCouponCode r now2 rnd, rd_status = Active,
               expiresAt = validUntil r, redeemedAt = now2\<rparr>"
    using res redeem_route_ok [OF ok, of rnd] ok(1,2)
    by (intro exI [of _ u] exI [of _ r]) auto
next
  assume "redeem_route s actor rid now1 now2 rnd = (s', Inl e) \<and> e \<noteq> REDEEM_ERROR"
  then show "s' = s" using redeem_route_rejects by blast
next
  assume res: "mem_redeem s actor mid now code newId = (m', Inr md)"
  then obtain u r where ok: "find (\<lambda>r. m_id r = mid) (mem_rewards s) = Some r" "m_isActive r"
    "0 < m_availableQuantity r" "now \<le> m_validUntil r" "users s actor = Some u"
    "m_pointsRequired r \<le> points u"
    by (cases rule: mem_redeem_cases [of s actor mid now code newId]) auto
  note eq = mem_redeem_ok [OF ok, of code newId]
  have mr: "mem_rewards m' = update_first (\<lambda>r. m_id r = mid)
       (\<lambda>r. r\<lparr>m_availableQuantity := m_availableQuantity r - 1\<rparr>) (mem_rewards s)"
    using res eq by auto
  have st: "mem_stock m' mid = mem_stock s mid - 1"
    using mem_stock_decrement [OF mr, of mid] ok(1) by simp
  show "\<exists>u r. users s actor = Some u \<and> find (\<lambda>r. m_id r = mid) (mem_rewards s) = Some r \<and>
         m' = s\<lparr>mem_redemptions := mem_redemptions s @ [md],
                users := (users s)(actor \<mapsto> u\<lparr>points := points u - m_pointsRequired r\<rparr>),
                mem_rewards := update_first (\<lambda>r. m_id r = mid)
                  (\<lambda>r. r\<lparr>m_availableQuantity := m_availableQuantity r - 1\<rparr>) (mem_rewards s)\<rparr> \<and>
         mem_stock m' mid = mem_stock s mid - 1 \<and>
         md = \<lparr>md_id = newId, md_userId = actor, md_rewardId = mid, md_couponCode = code,
               md_pointsUsed = m_pointsRequired r, md_isUsed = False, md_usedAt = None,
               md_expiresAt = now + thirty_days, md_createdAt = now\<rparr>"
    using res eq ok(1,5) st
    by (intro exI [of _ u] exI [of _ r]) auto
next
  assume res: "mem_redeem s actor mid now code newId = (m', Inl me)"
  show "m' = s"
  proof (cases rule: mem_redeem_cases [of s actor mid now code newId])
    case (rejected e')
    then show ?thesis using res by simp
  next
    case (ok u r)
    then show ?thesis using res mem_redeem_ok [OF ok, of code newId] by simp
  qed
qed

lemma store0_redeem_first:
  "redeem_route store0 1 7 10 11 ''AB12'' =
     (store0\<lparr>users := (users store0)(1 \<mapsto> citizen_u\<lparr>points := 2\<rparr>),
             rewards := (rewards store0)(7 \<mapsto> voucher\<lparr>remainingQuantity := 1, totalRedeemed := 1\<rparr>),
             redemptions := [\<lparr>rd_user = 1, rd_reward = 7, pointsUsed = 8,
                 generatedCode = generateCouponCode voucher 11 ''AB12'', rd_status = Active,
                 expiresAt = 5000, redeemedAt = 11\<rparr>]\<rparr>,
      Inr \<lparr>rd_user = 1, rd_reward = 7, pointsUsed = 8,
           generatedCode = generateCouponCode voucher 11 ''AB12'', rd_status = Active,
           expiresAt = 5000, redeemedAt = 11\<rparr>)"
proof -
  have "isAvailable voucher 10" "isAvailable voucher 11" "pointsCost voucher \<le> points citizen_u"
    by (simp_all add: isAvailable_def voucher_def citizen_u_def)
  from redeem_route_ok [OF store0_ledger_facts(1,4) this(1,3) store0_ledger_facts(3) this(2),
      of "''AB12''"]
  show ?thesis by (simp add: store0_ledger_facts voucher_def citizen_u_def)
qed

theorem redeem_effects_witness:
  "\<exists>s' rd. redeem_route store0 1 7 10 11 ''AB12'' = (s', Inr rd) \<and>
      map_option points (users s' 1) = Some 2 \<and>
      map_option remainingQuantity (rewards s' 7) = Some 1 \<and>
      redemptions s' = [rd] \<and> rd_status rd = Active \<and> pointsUsed rd = 8 \<and>
      expiresAt rd = validUntil voucher \<and>
      redeem_route store0 1 8 10 11 ''AB12'' = (store0, Inl REWARD_NOT_FOUND)"
proof -
  obtain s' rd where res: "redeem_route store0 1 7 10 11 ''AB12'' = (s', Inr rd)"
    using store0_redeem_first by blast
  have nf: "redeem_route store0 1 8 10 11 ''AB12'' = (store0, Inl REWARD_NOT_FOUND)"
    by (simp add: redeem_route_def store0_def)
  note T = redeem_effects [of store0 1 7 10 11 "''AB12''" s' rd]
  from T [THEN conjunct1, rule_format, OF res] obtain u r where f:
    "users store0 1 = Some u" "rewards store0 7 = Some r"
    "s' = store0\<lparr>users := (users store0)(1 \<mapsto> u\<lparr>points := points u - pointsCost r\<rparr>),
                rewards := (rewards store0)(7 \<mapsto> r\<lparr>remainingQuantity := remainingQuantity r - 1,
                                                 totalRedeemed := totalRedeemed r + 1\<rparr>),
                redemptions := redemptions store0 @ [rd]\<rparr>"
    "rd = \<lparr>rd_user = 1, rd_reward = 7, pointsUsed = pointsCost r,
               generatedCode = generateCouponCode r 11 ''AB12'', rd_status = Active,
               expiresAt = validUntil r, redeemedAt = 11\<rparr>"
    by blast
  from f(1,2) have "u = citizen_u" "r = voucher"
    using store0_ledger_facts(1,4) by simp_all
  with f(3,4) have "map_option points (users s' 1) = Some 2"
    "map_option remainingQuantity (rewards s' 7) = Some 1"
    "redemptions s' = [rd]" "rd_status rd = Active" "pointsUsed rd = 8"
    "expiresAt rd = validUntil voucher"
    using store0_ledger_facts(5) by (simp_all add: voucher_def citizen_u_def)
  then show ?thesis using res nf by blast
qed

text \<open>A redemption through the in-memory router at time 10 of a reward valid until 5000
  expires thirty days later. And a request of the first route whose reward is available at
  the handler's check (5000) but no longer when \<open>redeem\<close> checks again (5001) fails with the
  points already deducted.\<close>

theorem redeem_counterexample:
  "map_sum id md_expiresAt (snd (mem_redeem store0 1 ''reward_1'' 10 ''CODE1234'' ''redemption_1''))
     = Inr 2592000010 \<and>
   m_validUntil reward_1 = 5000 \<and>
   isAvailable voucher 5000 \<and>
   redeem_route store0 1 7 5000 5001 ''AB12'' =
     (store0\<lparr>users := (users store0)(1 \<mapsto> citizen_u\<lparr>points := 2\<rparr>)\<rparr>, Inl REDEEM_ERROR)"
proof -
  have m: "find (\<lambda>r. m_id r = ''reward_1'') (mem_rewards store0) = Some reward_1"
    "m_isActive reward_1" "0 < m_availableQuantity reward_1" "10 \<le> m_validUntil reward_1"
    "m_pointsRequired reward_1 \<le> points citizen_u" "m_validUntil reward_1 = 5000"
    by (simp_all add: store0_def reward_1_def citizen_u_def)
  have a: "isAvailable voucher 5000" "\<not> isAvailable voucher 5001"
    "pointsCost voucher \<le> points citizen_u" "points citizen_u - pointsCost voucher = 2"
    by (simp_all add: isAvailable_def voucher_def citizen_u_def)
  show ?thesis
    using mem_redeem_ok [OF m(1,2,3,4) store0_ledger_facts(1) m(5), of "''CODE1234''" "''redemption_1''"]
      redeem_route_late [OF store0_ledger_facts(1,4) a(1,3) store0_ledger_facts(3) a(2), of "''AB12''"]
      m(6) a(1,4)
    by (simp add: thirty_days_def)
qed

section \<open>Nearby reports\<close>

lemma cos_degrees_pos:
  assumes "- 90 < qlat" "qlat < 90"
  shows "0 < cos (qlat * pi / 180)"
proof (rule cos_gt_zero_pi)
  have "(- 90) * pi < qlat * pi" using assms(1) by (rule mult_strict_right_mono) simp
  then show "- (pi / 2) < qlat * pi / 180" by simp
  have "qlat * pi < 90 * pi" using assms(2) by (rule mult_strict_right_mono) simp
  then show "qlat * pi / 180 < pi / 2" by simp
qed

lemma box_as_scaled_distance:
  fixes c :: real
  assumes "0 < c"
  shows "(qlng - r / (111 * c) \<le> x \<and> x \<le> qlng + r / (111 * c)) \<longleftrightarrow> \<bar>x - qlng\<bar> * c \<le> r / 111"
proof -
  have "(qlng - r / (111 * c) \<le> x \<and> x \<le> qlng + r / (111 * c)) \<longleftrightarrow> \<bar>x - qlng\<bar> \<le> r / (111 * c)"
    by (simp only: abs_diff_le_iff)
  also have "\<dots> \<longleftrightarrow> \<bar>x - qlng\<bar> * c \<le> r / 111"
    using assms by (simp add: field_simps)
  finally show ?thesis .
qed

text \<open>C8, as the code has it. \<open>findNearby\<close> computes no distance. For a query latitude
  strictly between the poles it returns, in storage order, exactly the reports whose
  latitude differs from the query's by at most \<open>radiusKm / 111\<close> degrees and whose longitude
  difference, scaled by the cosine of the query latitude, is at most \<open>radiusKm / 111\<close>
  degrees (one degree taken as 111 km); a report at the query point itself is returned for
  every non-negative radius. This box is not the set of reports within haversine distance
  \<open>radiusKm\<close>.\<close>

theorem findNearby_bounding_box:
  assumes "- 90 < qlat" and "qlat < 90"
  shows "findNearby reps qlat qlng radiusKm =
           filter (\<lambda>r. \<bar>lat r - qlat\<bar> \<le> radiusKm / 111 \<and>
                       \<bar>lng r - qlng\<bar> * cos (qlat * pi / 180) \<le> radiusKm / 111) reps \<and>
         (0 \<le> radiusKm \<longrightarrow>
            filter (\<lambda>r. lat r = qlat \<and> lng r = qlng) (findNearby reps qlat qlng radiusKm) =
            filter (\<lambda>r. lat r = qlat \<and> lng r = qlng) reps)"
proof
  have c: "0 < cos (qlat * pi / 180)" using assms by (rule cos_degrees_pos)
  have lat_box: "(qlat - radiusKm / 111 \<le> x \<and> x \<le> qlat + radiusKm / 111) \<longleftrightarrow>
      \<bar>x - qlat\<bar> \<le> radiusKm / 111" for x :: real
    by (simp only: abs_diff_le_iff)
  show box: "findNearby reps qlat qlng radiusKm =
           filter (\<lambda>r. \<bar>lat r - qlat\<bar> \<le> radiusKm / 111 \<and>
                       \<bar>lng r - qlng\<bar> * cos (qlat * pi / 180) \<le> radiusKm / 111) reps"
    unfolding findNearby_def
    by (rule filter_cong [OF refl])
      (use lat_box box_as_scaled_distance [OF c, of qlng radiusKm] in auto)
  show "0 \<le> radiusKm \<longrightarrow>
            filter (\<lambda>r. lat r = qlat \<and> lng r = qlng) (findNearby reps qlat qlng radiusKm) =
            filter (\<lambda>r. lat r = qlat \<and> lng r = qlng) reps"
  proof
    assume "0 \<le> radiusKm"
    then show "filter (\<lambda>r. lat r = qlat \<and> lng r = qlng) (findNearby reps qlat qlng radiusKm) =
            filter (\<lambda>r. lat r = qlat \<and> lng r = qlng) reps"
      unfolding box by (auto intro: filter_cong)
  qed
qed

theorem findNearby_bounding_box_witness:
  "- 90 < (40.7128 :: real) \<and> (40.7128 :: real) < 90 \<and>
   lat nyc_report = 40.7128 \<and> lng nyc_report = - 74.0060 \<and>
   findNearby [nyc_report] 40.7128 (- 74.0060) 1 = [nyc_report] \<and>
   findNearby [nyc_report] 41.9 (- 87.6) 1 = []"
proof -
  have at: "lat nyc_report = 40.7128" "lng nyc_report = - 74.0060"
    by (simp_all add: nyc_report_def new_Report_def body0_def)
  have "findNearby [nyc_report] 40.7128 (- 74.0060) 1 = [nyc_report]"
    using findNearby_bounding_box [of "40.7128" "[nyc_report]" "- 74.0060" 1] at by simp
  moreover have "findNearby [nyc_report] 41.9 (- 87.6) 1 = []"
    using findNearby_bounding_box [of "41.9" "[nyc_report]" "- 87.6" 1] at by simp
  ultimately show ?thesis using at by simp
qed

text \<open>A report on the 180th meridian, stored with longitude -180, and a query at longitude
  180 on the equator: the haversine distance is 0, yet the report is outside the box.\<close>

theorem findNearby_haversine_counterexample:
  "calculateDistance 0 180 (lat meridian_report) (lng meridian_report) = 0 \<and>
   nearby_spec [meridian_report] 0 180 1 = [meridian_report] \<and>
   findNearby [meridian_report] 0 180 1 = []"
proof -
  have at: "lat meridian_report = 0" "lng meridian_report = - 180"
    by (simp_all add: meridian_report_def)
  have d: "calculateDistance 0 180 0 (- 180) = 0"
    by (simp add: calculateDistance_def atan2_def)
  have "findNearby [meridian_report] 0 180 1 = []"
    by (simp add: findNearby_def at)
  then show ?thesis using at d by (simp add: nearby_spec_def)
qed

end
